theory Spec2Isabelle
  imports Main
begin

section \<open>Data model\<close>

text \<open>
  A script snapshot is an immutable object that the code compares by reference only
  (\<^verbatim>\<open>!==\<close>). The model gives every snapshot object an identity number next to its
  text, so that HOL equality of two snapshots is equality of the objects.
\<close>

datatype Snapshot = Snapshot (snap_id: nat) (snap_text: string)

datatype FileKind = TextFile | TypeScriptHostFile

record FileRangeCapabilities =
  cap_diagnostic :: bool
  cap_rename :: bool

record MappingRange =
  generatedRange :: "int \<times> int"
  sourceRange :: "int \<times> int"
  range_data :: FileRangeCapabilities

text \<open>
  A mapping of a generated unit: the source document it targets (\<open>None\<close>: the owning
  document) and its ordered range triples.
\<close>

record Mapping =
  m_source :: "string option"
  m_ranges :: "MappingRange list"

datatype VirtualFile = VirtualFile
  (vf_fileName: string)
  (vf_snapshot: Snapshot)
  (vf_kind: FileKind)
  (vf_diagnostic: bool)
  (vf_mappings: "Mapping list")
  (vf_embeddedFiles: "VirtualFile list")

record Source =
  src_fileName :: string
  src_languageId :: "string option"
  src_snapshot :: Snapshot
  src_root :: VirtualFile

text \<open>
  A language module is external: given a path, a snapshot and a language id it either
  produces the root of a generated tree or declines.
\<close>

type_synonym LanguageModule = "string \<Rightarrow> Snapshot \<Rightarrow> string option \<Rightarrow> VirtualFile option"

text \<open>
  The raw host environment (\<^verbatim>\<open>LanguageServiceHost\<close>). Optional methods are options:
  \<open>h_getProjectVersion\<close> is \<open>None\<close> when the method is absent or answers undefined,
  \<open>h_fileExists\<close> is \<open>None\<close> when the host has no such method.
\<close>

record Host =
  h_getProjectVersion :: "string option"
  h_getScriptFileNames :: "string list"
  h_getScriptVersion :: "string \<Rightarrow> string"
  h_getScriptSnapshot :: "string \<Rightarrow> Snapshot option"
  h_getScriptLanguageId :: "string \<Rightarrow> string option"
  h_fileExists :: "(string \<Rightarrow> bool) option"
  h_isTsc :: bool
  h_getCurrentDirectory :: string

record VersionRec =
  ver_value :: nat
  virtualFileSnapshot :: Snapshot
  sourceFileSnapshot :: Snapshot

text \<open>
  \<^verbatim>\<open>createLanguageContext\<close> first wraps the host in the proxies of the language
  modules; in what follows \<open>host\<close> is the wrapped host, and the list of language modules
  is the list as the store receives it.

  The mutable variables that \<^verbatim>\<open>createLanguageContext\<close> closes over. The store
  \<open>virtualFiles\<close> and \<open>sourceTsFileVersions\<close> are ordered (a JavaScript \<^verbatim>\<open>Map\<close>
  iterates in insertion order), so they are association lists.
\<close>

record Ctx =
  lastProjectVersion :: "string option"
  tsProjectVersion :: nat
  virtualFiles :: "Source list"
  scriptSnapshots :: "string \<rightharpoonup> (string \<times> Snapshot)"
  sourceTsFileVersions :: "(string \<times> string) list"
  sourceFileVersions :: "string \<rightharpoonup> string"
  virtualFileVersions :: "string \<rightharpoonup> VersionRec"

definition initialCtx :: Ctx where
  "initialCtx = \<lparr> lastProjectVersion = None, tsProjectVersion = 0, virtualFiles = [],
     scriptSnapshots = Map.empty, sourceTsFileVersions = [], sourceFileVersions = Map.empty,
     virtualFileVersions = Map.empty \<rparr>"

section \<open>JavaScript built-ins\<close>

text \<open>\<^verbatim>\<open>new Set(xs)\<close> and \<^verbatim>\<open>set.add\<close>: insertion order, first occurrence kept.\<close>

fun set_add :: "'a list \<Rightarrow> 'a \<Rightarrow> 'a list" where
  "set_add xs x = (if x \<in> set xs then xs else xs @ [x])"

definition new_Set :: "'a list \<Rightarrow> 'a list" where
  "new_Set xs = foldl set_add [] xs"

text \<open>\<^verbatim>\<open>map.set(k, v)\<close> on an ordered map: an existing key keeps its place.\<close>

fun map_set :: "('k \<times> 'v) list \<Rightarrow> 'k \<Rightarrow> 'v \<Rightarrow> ('k \<times> 'v) list" where
  "map_set [] k v = [(k, v)]"
| "map_set ((k', v') # kvs) k v = (if k' = k then (k, v) # kvs else (k', v') # map_set kvs k v)"

definition map_delete :: "('k \<times> 'v) list \<Rightarrow> 'k \<Rightarrow> ('k \<times> 'v) list" where
  "map_delete kvs k = filter (\<lambda>kv. fst kv \<noteq> k) kvs"

text \<open>\<^verbatim>\<open>s.lastIndexOf(c)\<close>: the index of the last occurrence, \<open>-1\<close> when there is none.\<close>

definition lastIndexOf :: "string \<Rightarrow> char \<Rightarrow> int" where
  "lastIndexOf s c =
     (if c \<in> set s then int (length s) - 1 - int (length (takeWhile (\<lambda>x. x \<noteq> c) (rev s)))
      else - 1)"

text \<open>\<^verbatim>\<open>s.substring(a)\<close> and \<^verbatim>\<open>s.substring(a, b)\<close>: indices are clamped to the
  string, and swapped when \<open>a > b\<close>.\<close>

definition clamp_index :: "string \<Rightarrow> int \<Rightarrow> nat" where
  "clamp_index s i = min (length s) (nat (max 0 i))"

definition substring_from :: "string \<Rightarrow> int \<Rightarrow> string" where
  "substring_from s a = drop (clamp_index s a) s"

definition substring :: "string \<Rightarrow> int \<Rightarrow> int \<Rightarrow> string" where
  "substring s a b =
     (let x = clamp_index s a; y = clamp_index s b
      in take (max x y - min x y) (drop (min x y) s))"

definition startsWith :: "string \<Rightarrow> string \<Rightarrow> bool" where
  "startsWith s p = (take (length p) s = p)"

text \<open>\<^verbatim>\<open>s.toLowerCase()\<close>, on ASCII letters.\<close>

definition lower_char :: "char \<Rightarrow> char" where
  "lower_char c =
     (let n = (of_char c :: nat) in if 65 \<le> n \<and> n \<le> 90 then char_of (n + 32) else c)"

definition toLowerCase :: "string \<Rightarrow> string" where
  "toLowerCase s = map lower_char s"

text \<open>\<^verbatim>\<open>n.toString()\<close> of a non-negative integer: its decimal digits.\<close>

fun toString :: "nat \<Rightarrow> string" where
  "toString n =
     (if n < 10 then [char_of (48 + n)] else toString (n div 10) @ [char_of (48 + n mod 10)])"

declare toString.simps [simp del]

section \<open>The virtual document store\<close>

text \<open>
  Modelled from the spec: \<^verbatim>\<open>forEachEmbeddedFile\<close> of \<^verbatim>\<open>./virtualFiles\<close>, which is not
  among the sources. It visits a root unit and then its descendant units.
\<close>

fun forEachEmbeddedFile :: "VirtualFile \<Rightarrow> VirtualFile list" where
  "forEachEmbeddedFile (VirtualFile n s k d ms es) =
     VirtualFile n s k d ms es # concat (map forEachEmbeddedFile es)"

text \<open>
  The store returned by \<^verbatim>\<open>createVirtualFiles\<close> of \<^verbatim>\<open>./virtualFiles\<close> is not among the
  sources; its operations are modelled from the spec (section 4.1). The store maps the
  path of a source document to its snapshot, language id and generated tree; it is the
  list of its documents in the order in which they were first registered.
\<close>

text \<open>Modelled from the spec: \<open>allSources\<close> of the store (not among the sources), the
  sequence of the documents.\<close>

definition allSources :: "Source list \<Rightarrow> Source list" where
  "allSources st = st"

text \<open>Modelled from the spec: \<open>hasSource\<close> of the store (not among the sources).\<close>

definition hasSource :: "Source list \<Rightarrow> string \<Rightarrow> bool" where
  "hasSource st fileName = (fileName \<in> set (map src_fileName st))"

text \<open>Modelled from the spec: \<open>getSource\<close> of the store (not among the sources).\<close>

definition getSource :: "Source list \<Rightarrow> string \<Rightarrow> Source option" where
  "getSource st fileName = find (\<lambda>s. src_fileName s = fileName) st"

text \<open>Modelled from the spec: \<open>deleteSource\<close> of the store (not among the sources).\<close>

definition deleteSource :: "Source list \<Rightarrow> string \<Rightarrow> Source list" where
  "deleteSource st fileName = filter (\<lambda>s. src_fileName s \<noteq> fileName) st"

text \<open>Modelled from the spec: the choice of the language module inside \<open>updateSource\<close>
  (not among the sources). The modules are asked in their order and the first that
  accepts wins.\<close>

fun firstAccepting :: "LanguageModule list \<Rightarrow> string \<Rightarrow> Snapshot \<Rightarrow> string option \<Rightarrow> VirtualFile option" where
  "firstAccepting [] fileName snapshot languageId = None"
| "firstAccepting (languageModule # rest) fileName snapshot languageId =
     (case languageModule fileName snapshot languageId of
        Some virtualFile \<Rightarrow> Some virtualFile
      | None \<Rightarrow> firstAccepting rest fileName snapshot languageId)"

text \<open>Modelled from the spec: the replacement inside \<open>updateSource\<close> (not among the
  sources). The new document takes the place of the one with its path, or comes last.\<close>

fun putSource :: "Source list \<Rightarrow> Source \<Rightarrow> Source list" where
  "putSource [] new = [new]"
| "putSource (s # st) new =
     (if src_fileName s = src_fileName new then new # st else s # putSource st new)"

text \<open>Modelled from the spec: \<open>updateSource\<close> of the store (not among the sources). The
  tree of the first module that accepts replaces any previous tree of the path and is
  returned; when no module accepts, nothing is returned and the store stays as it is.\<close>

definition updateSource ::
  "LanguageModule list \<Rightarrow> Source list \<Rightarrow> string \<Rightarrow> Snapshot \<Rightarrow> string option
     \<Rightarrow> VirtualFile option \<times> Source list" where
  "updateSource languageModules st fileName snapshot languageId =
     (case firstAccepting languageModules fileName snapshot languageId of
        None \<Rightarrow> (None, st)
      | Some virtualFile \<Rightarrow>
          (Some virtualFile,
           putSource st \<lparr> src_fileName = fileName, src_languageId = languageId,
                          src_snapshot = snapshot, src_root = virtualFile \<rparr>))"

text \<open>Modelled from the spec: the reverse index of the store (not among the sources),
  every unit of every tree with its owning document.\<close>

definition unitsOf :: "Source list \<Rightarrow> (VirtualFile \<times> Source) list" where
  "unitsOf st = concat (map (\<lambda>s. map (\<lambda>u. (u, s)) (forEachEmbeddedFile (src_root s))) st)"

text \<open>Modelled from the spec: \<open>getVirtualFile\<close> of the store (not among the sources), the
  reverse lookup from a generated path to the unit and its owning document; both are
  absent for an unknown path.\<close>

definition getVirtualFile :: "Source list \<Rightarrow> string \<Rightarrow> VirtualFile option \<times> Source option" where
  "getVirtualFile st fileName =
     (case find (\<lambda>us. vf_fileName (fst us) = fileName) (unitsOf st) of
        Some (u, s) \<Rightarrow> (Some u, Some s)
      | None \<Rightarrow> (None, None))"

text \<open>Modelled from the spec: \<open>hasVirtualFile\<close> of the store (not among the sources).\<close>

definition hasVirtualFile :: "Source list \<Rightarrow> string \<Rightarrow> bool" where
  "hasVirtualFile st fileName = (fst (getVirtualFile st fileName) \<noteq> None)"

section \<open>The language context\<close>

subsection \<open>\<^verbatim>\<open>update\<close>\<close>

text \<open>The local variables of one run of \<^verbatim>\<open>update\<close>, next to the context's own.\<close>

record UpdateVars =
  u_ctx :: Ctx
  remainRootFiles :: "string list"
  shouldUpdateTsProject :: bool
  virtualFilesUpdatedNum :: nat

text \<open>Body of the first loop, over the tracked source documents.\<close>

definition refreshSource :: "Host \<Rightarrow> LanguageModule list \<Rightarrow> string \<Rightarrow> UpdateVars \<Rightarrow> UpdateVars" where
  "refreshSource host languageModules fileName v0 =
     (let v = v0\<lparr> remainRootFiles := removeAll fileName (remainRootFiles v0) \<rparr>;
          c = u_ctx v
      in case h_getScriptSnapshot host fileName of
           None \<Rightarrow>
             v\<lparr> u_ctx := c\<lparr> virtualFiles := deleteSource (virtualFiles c) fileName \<rparr>,
                shouldUpdateTsProject := True,
                virtualFilesUpdatedNum := virtualFilesUpdatedNum v + 1 \<rparr>
         | Some snapshot \<Rightarrow>
             (let newVersion = h_getScriptVersion host fileName
              in if sourceFileVersions c fileName \<noteq> Some newVersion
                 then v\<lparr> u_ctx := c\<lparr>
                            sourceFileVersions := (sourceFileVersions c)(fileName \<mapsto> newVersion),
                            virtualFiles := snd (updateSource languageModules (virtualFiles c) fileName
                                                   snapshot (h_getScriptLanguageId host fileName)) \<rparr>,
                         virtualFilesUpdatedNum := virtualFilesUpdatedNum v + 1 \<rparr>
                 else v))"

text \<open>Body of the second loop: a root file of the host becomes a source document when a
  language module accepts it.\<close>

definition addRootFile :: "Host \<Rightarrow> LanguageModule list \<Rightarrow> string \<Rightarrow> UpdateVars \<Rightarrow> UpdateVars" where
  "addRootFile host languageModules fileName v =
     (case h_getScriptSnapshot host fileName of
        None \<Rightarrow> v
      | Some snapshot \<Rightarrow>
          (let c = u_ctx v;
               r = updateSource languageModules (virtualFiles c) fileName snapshot
                     (h_getScriptLanguageId host fileName)
           in v\<lparr> u_ctx := c\<lparr> virtualFiles := snd r \<rparr>,
                 remainRootFiles :=
                   (if fst r \<noteq> None then removeAll fileName (remainRootFiles v)
                    else remainRootFiles v) \<rparr>))"

text \<open>Body of the third loop, over the recorded versions of plain files.\<close>

definition refreshTsFile :: "Host \<Rightarrow> string \<times> string \<Rightarrow> UpdateVars \<Rightarrow> UpdateVars" where
  "refreshTsFile host old v =
     (let oldTsFileName = fst old; oldTsFileVersion = snd old;
          newVersion = h_getScriptVersion host oldTsFileName;
          c = u_ctx v
      in if oldTsFileVersion \<noteq> newVersion
         then v\<lparr> u_ctx := c\<lparr> sourceTsFileVersions :=
                    (if oldTsFileName \<notin> set (remainRootFiles v)
                        \<and> h_getScriptSnapshot host oldTsFileName = None
                     then map_delete (sourceTsFileVersions c) oldTsFileName
                     else map_set (sourceTsFileVersions c) oldTsFileName newVersion) \<rparr>,
                 shouldUpdateTsProject := True \<rparr>
         else v)"

text \<open>Body of the fourth loop, over the remaining root files.\<close>

definition addTsFile :: "Host \<Rightarrow> string \<Rightarrow> UpdateVars \<Rightarrow> UpdateVars" where
  "addTsFile host nowFileName v =
     (let c = u_ctx v
      in if nowFileName \<notin> set (map fst (sourceTsFileVersions c))
         then v\<lparr> u_ctx := c\<lparr> sourceTsFileVersions :=
                    map_set (sourceTsFileVersions c) nowFileName (h_getScriptVersion host nowFileName) \<rparr>,
                 shouldUpdateTsProject := True \<rparr>
         else v)"

text \<open>The test of the fifth loop: an engine-visible unit whose recorded Version Token
  holds another snapshot than the unit has now.\<close>

definition embeddedChanged :: "Ctx \<Rightarrow> VirtualFile \<Rightarrow> bool" where
  "embeddedChanged c embedded =
     (vf_kind embedded = TypeScriptHostFile \<and>
      (case virtualFileVersions c (vf_fileName embedded) of
         None \<Rightarrow> False
       | Some version \<Rightarrow> virtualFileSnapshot version \<noteq> vf_snapshot embedded))"

definition anyEmbeddedChanged :: "Ctx \<Rightarrow> bool" where
  "anyEmbeddedChanged c =
     list_ex (\<lambda>s. list_ex (embeddedChanged c) (forEachEmbeddedFile (src_root s)))
       (allSources (virtualFiles c))"

text \<open>The first part of \<^verbatim>\<open>update\<close>: the loop over the tracked documents, the rule
  for a cycle without any document change, and the loop that adds root files.\<close>

definition syncDocuments :: "Host \<Rightarrow> LanguageModule list \<Rightarrow> Ctx \<Rightarrow> UpdateVars" where
  "syncDocuments host languageModules c =
     (let v0 = \<lparr> u_ctx = c, remainRootFiles = new_Set (h_getScriptFileNames host),
                 shouldUpdateTsProject = False, virtualFilesUpdatedNum = 0 \<rparr>;
          v1 = fold (refreshSource host languageModules)
                 (map src_fileName (allSources (virtualFiles c))) v0;
          v2 = (if virtualFilesUpdatedNum v1 = 0 then v1\<lparr> shouldUpdateTsProject := True \<rparr> else v1)
      in fold (addRootFile host languageModules) (remainRootFiles v2) v2)"

text \<open>The second part: the two loops over the plain files.\<close>

definition syncPlainFiles :: "Host \<Rightarrow> UpdateVars \<Rightarrow> UpdateVars" where
  "syncPlainFiles host v3 =
     (let v4 = fold (refreshTsFile host) (sourceTsFileVersions (u_ctx v3)) v3
      in fold (addTsFile host) (remainRootFiles v4) v4)"

definition update :: "Host \<Rightarrow> LanguageModule list \<Rightarrow> Ctx \<Rightarrow> Ctx" where
  "update host languageModules c0 =
     (let newProjectVersion = h_getProjectVersion host;
          shouldUpdate = (newProjectVersion = None \<or> newProjectVersion \<noteq> lastProjectVersion c0);
          c = c0\<lparr> lastProjectVersion := newProjectVersion \<rparr>
      in if \<not> shouldUpdate then c
         else
           (let v5 = syncPlainFiles host (syncDocuments host languageModules c);
                v6 = (if \<not> shouldUpdateTsProject v5 \<and> anyEmbeddedChanged (u_ctx v5)
                      then v5\<lparr> shouldUpdateTsProject := True \<rparr> else v5);
                c6 = u_ctx v6
            in if shouldUpdateTsProject v6
               then c6\<lparr> tsProjectVersion := tsProjectVersion c6 + 1 \<rparr>
               else c6))"

text \<open>
  What a cycle that runs can find, in terms of the host and of the context before the
  cycle: a tracked document whose snapshot the host has lost; every tracked document
  still there with its recorded host version; a recorded plain file whose host version
  differs from the record; a root file, left over once the documents are registered,
  that has no recorded version; an engine-visible unit whose Version Token was recorded
  with another snapshot than the unit has once the documents are refreshed.
\<close>

definition documentLost :: "Host \<Rightarrow> Ctx \<Rightarrow> bool" where
  "documentLost host c =
     (\<exists>s \<in> set (allSources (virtualFiles c)). h_getScriptSnapshot host (src_fileName s) = None)"

definition documentsUnchanged :: "Host \<Rightarrow> Ctx \<Rightarrow> bool" where
  "documentsUnchanged host c =
     (\<forall>s \<in> set (allSources (virtualFiles c)).
        h_getScriptSnapshot host (src_fileName s) \<noteq> None
        \<and> sourceFileVersions c (src_fileName s) = Some (h_getScriptVersion host (src_fileName s)))"

definition plainFileChanged :: "Host \<Rightarrow> Ctx \<Rightarrow> bool" where
  "plainFileChanged host c =
     (\<exists>old \<in> set (sourceTsFileVersions c). h_getScriptVersion host (fst old) \<noteq> snd old)"

definition plainFileAdded :: "Host \<Rightarrow> LanguageModule list \<Rightarrow> Ctx \<Rightarrow> bool" where
  "plainFileAdded host mods c =
     (\<exists>f \<in> set (remainRootFiles (syncDocuments host mods c)).
        f \<notin> fst ` set (sourceTsFileVersions c))"

definition unitChanged :: "Host \<Rightarrow> LanguageModule list \<Rightarrow> Ctx \<Rightarrow> bool" where
  "unitChanged host mods c = anyEmbeddedChanged (u_ctx (syncDocuments host mods c))"

subsection \<open>The derived host view\<close>

definition getProjectVersion :: "Ctx \<Rightarrow> string" where
  "getProjectVersion c = toString (tsProjectVersion c)"

definition getScriptFileNames :: "Host \<Rightarrow> Ctx \<Rightarrow> string list" where
  "getScriptFileNames host c =
     new_Set
       ([vf_fileName embedded.
           s \<leftarrow> allSources (virtualFiles c),
           embedded \<leftarrow> forEachEmbeddedFile (src_root s),
           vf_kind embedded = TypeScriptHostFile]
        @ [fileName. fileName \<leftarrow> h_getScriptFileNames host, \<not> hasSource (virtualFiles c) fileName])"

definition getScriptVersion :: "Host \<Rightarrow> Ctx \<Rightarrow> string \<Rightarrow> string \<times> Ctx" where
  "getScriptVersion host c fileName =
     (case getVirtualFile (virtualFiles c) fileName of
        (Some virtualFile, Some source) \<Rightarrow>
          (case virtualFileVersions c (vf_fileName virtualFile) of
             None \<Rightarrow>
               (toString 0,
                c\<lparr> virtualFileVersions := (virtualFileVersions c)(vf_fileName virtualFile \<mapsto>
                     \<lparr> ver_value = 0, virtualFileSnapshot = vf_snapshot virtualFile,
                       sourceFileSnapshot = src_snapshot source \<rparr>) \<rparr>)
           | Some version \<Rightarrow>
               if virtualFileSnapshot version \<noteq> vf_snapshot virtualFile
                  \<or> (h_isTsc host \<and> sourceFileSnapshot version \<noteq> src_snapshot source)
               then
                 (toString (ver_value version + 1),
                  c\<lparr> virtualFileVersions := (virtualFileVersions c)(vf_fileName virtualFile \<mapsto>
                       \<lparr> ver_value = ver_value version + 1,
                         virtualFileSnapshot = vf_snapshot virtualFile,
                         sourceFileSnapshot = src_snapshot source \<rparr>) \<rparr>)
               else (toString (ver_value version), c))
      | _ \<Rightarrow> (h_getScriptVersion host fileName, c))"

definition getScriptSnapshot :: "Host \<Rightarrow> Ctx \<Rightarrow> string \<Rightarrow> Snapshot option \<times> Ctx" where
  "getScriptSnapshot host c0 fileName =
     (let r = getScriptVersion host c0 fileName; version = fst r; c = snd r;
          cache = scriptSnapshots c (toLowerCase fileName)
      in if cache \<noteq> None \<and> fst (the cache) = version then (Some (snd (the cache)), c)
         else
           (case fst (getVirtualFile (virtualFiles c) fileName) of
              Some virtualFile \<Rightarrow>
                (Some (vf_snapshot virtualFile),
                 c\<lparr> scriptSnapshots := (scriptSnapshots c)(toLowerCase fileName \<mapsto>
                      (version, vf_snapshot virtualFile)) \<rparr>)
            | None \<Rightarrow>
                (case h_getScriptSnapshot host fileName of
                   Some tsScript \<Rightarrow>
                     (Some tsScript,
                      c\<lparr> scriptSnapshots := (scriptSnapshots c)(toLowerCase fileName \<mapsto>
                           (version, tsScript)) \<rparr>)
                 | None \<Rightarrow> (None, c))))"

text \<open>The body of \<^verbatim>\<open>_tsHost.fileExists\<close>; the member exists only when the host has
  a \<^verbatim>\<open>fileExists\<close> of its own (\<open>tsHost_fileExists\<close>).\<close>

definition fileExists :: "Host \<Rightarrow> LanguageModule list \<Rightarrow> Ctx \<Rightarrow> string \<Rightarrow> bool \<times> Ctx" where
  "fileExists host languageModules c0 fileName =
     (let ext = substring_from fileName (lastIndexOf fileName CHR ''.'');
          c =
            (if ext = ''.js'' \<or> ext = ''.ts'' \<or> ext = ''.jsx'' \<or> ext = ''.tsx''
             then
               (let sourceFileName = substring fileName 0 (lastIndexOf fileName CHR ''.'')
                in if \<not> hasSource (virtualFiles c0) sourceFileName
                   then
                     (case h_getScriptSnapshot host sourceFileName of
                        Some scriptSnapshot \<Rightarrow>
                          c0\<lparr> virtualFiles :=
                                snd (updateSource languageModules (virtualFiles c0) sourceFileName
                                       scriptSnapshot (h_getScriptLanguageId host sourceFileName)) \<rparr>
                      | None \<Rightarrow> c0)
                   else c0)
             else c0)
      in if hasVirtualFile (virtualFiles c) fileName then (True, c)
         else ((case h_fileExists host of Some f \<Rightarrow> f fileName | None \<Rightarrow> False), c))"

definition tsHost_fileExists ::
  "Host \<Rightarrow> LanguageModule list \<Rightarrow> (Ctx \<Rightarrow> string \<Rightarrow> bool \<times> Ctx) option" where
  "tsHost_fileExists host languageModules =
     (case h_fileExists host of
        Some f \<Rightarrow> Some (fileExists host languageModules)
      | None \<Rightarrow> None)"

section \<open>The program overlay\<close>

subsection \<open>Mappings\<close>

text \<open>
  Modelled from the spec: the match of one range inside \<^verbatim>\<open>toSourceOffsets\<close> of the
  source-map package, which is not among the sources. A range whose generated side
  holds the offset (both ends included) claims it; the source offset lies as far from
  the start of the source range as the offset lies from the start of the generated
  range, or, in the end-inclusive variant, as far from the end. The spec leaves the
  arithmetic open; no theorem below depends on it.
\<close>

definition matchOffset :: "int \<Rightarrow> int \<times> int \<Rightarrow> int \<times> int \<Rightarrow> bool \<Rightarrow> int option" where
  "matchOffset start mappedFromRange mappedToRange baseOnRight =
     (if fst mappedFromRange \<le> start \<and> start \<le> snd mappedFromRange
      then
        (let offset = fst mappedToRange + start - fst mappedFromRange
                      + (if baseOnRight
                         then (snd mappedToRange - fst mappedToRange)
                              - (snd mappedFromRange - fst mappedFromRange)
                         else 0)
         in if fst mappedToRange \<le> offset \<and> offset \<le> snd mappedToRange then Some offset else None)
      else None)"

text \<open>Modelled from the spec: \<^verbatim>\<open>toSourceOffsets\<close> of the source-map package (not among
  the sources), the matches of an offset over the ranges of one map, in their order.\<close>

definition toSourceOffsets :: "MappingRange list \<Rightarrow> int \<Rightarrow> bool \<Rightarrow> (int \<times> MappingRange) list" where
  "toSourceOffsets ranges start baseOnRight =
     List.map_filter
       (\<lambda>r. map_option (\<lambda>offset. (offset, r))
              (matchOffset start (generatedRange r) (sourceRange r) baseOnRight))
       ranges"

text \<open>
  Modelled from the spec: \<^verbatim>\<open>getMaps\<close> of the store, which is not among the sources. It
  lists, for every mapping of the unit, the path of the source document the mapping
  targets (the owning document when the mapping names none) with the mapping's ranges.
\<close>

definition getMaps :: "Source list \<Rightarrow> VirtualFile \<Rightarrow> (string \<times> MappingRange list) list" where
  "getMaps st virtualFile =
     List.map_filter
       (\<lambda>m. case m_source m of
               Some sourceFileName \<Rightarrow> Some (sourceFileName, m_ranges m)
             | None \<Rightarrow>
                 (case snd (getVirtualFile st (vf_fileName virtualFile)) of
                    Some owner \<Rightarrow> Some (src_fileName owner, m_ranges m)
                  | None \<Rightarrow> None))
       (vf_mappings virtualFile)"

subsection \<open>The context as the overlay reaches it\<close>

text \<open>
  \<^verbatim>\<open>core.typescript.languageServiceHost\<close> and \<^verbatim>\<open>core.virtualFiles\<close> are proxies: every
  property access runs \<^verbatim>\<open>update\<close> first. A member of the derived host view that is
  absent falls back to the host's own, so \<open>fileExists\<close> is absent exactly when the host
  has none (\<open>None\<close> is the \<^verbatim>\<open>undefined\<close> that \<^verbatim>\<open>fileExists?.(f)\<close> then yields).
\<close>

definition lsh_fileExists :: "Host \<Rightarrow> LanguageModule list \<Rightarrow> Ctx \<Rightarrow> string \<Rightarrow> bool option \<times> Ctx" where
  "lsh_fileExists host languageModules c fileName =
     (let c1 = update host languageModules c
      in case tsHost_fileExists host languageModules of
           None \<Rightarrow> (None, c1)
         | Some f \<Rightarrow> (let r = f c1 fileName in (Some (fst r), snd r)))"

definition lsh_getScriptSnapshot ::
  "Host \<Rightarrow> LanguageModule list \<Rightarrow> Ctx \<Rightarrow> string \<Rightarrow> Snapshot option \<times> Ctx" where
  "lsh_getScriptSnapshot host languageModules c fileName =
     getScriptSnapshot host (update host languageModules c) fileName"

definition lsh_getScriptFileNames :: "Host \<Rightarrow> LanguageModule list \<Rightarrow> Ctx \<Rightarrow> string list \<times> Ctx" where
  "lsh_getScriptFileNames host languageModules c =
     (let c1 = update host languageModules c in (getScriptFileNames host c1, c1))"

definition vfs_getVirtualFile ::
  "Host \<Rightarrow> LanguageModule list \<Rightarrow> Ctx \<Rightarrow> string \<Rightarrow> (VirtualFile option \<times> Source option) \<times> Ctx" where
  "vfs_getVirtualFile host languageModules c fileName =
     (let c1 = update host languageModules c in (getVirtualFile (virtualFiles c1) fileName, c1))"

definition vfs_getMaps ::
  "Host \<Rightarrow> LanguageModule list \<Rightarrow> Ctx \<Rightarrow> VirtualFile \<Rightarrow> (string \<times> MappingRange list) list \<times> Ctx" where
  "vfs_getMaps host languageModules c virtualFile =
     (let c1 = update host languageModules c in (getMaps (virtualFiles c1) virtualFile, c1))"

subsection \<open>\<^verbatim>\<open>getRootFileNames\<close>\<close>

text \<open>The filter over the root file names of the underlying program; the callback
  reaches \<open>fileExists\<close> through the proxy, once for every name, in order.\<close>

fun getRootFileNames :: "Host \<Rightarrow> LanguageModule list \<Rightarrow> Ctx \<Rightarrow> string list \<Rightarrow> string list \<times> Ctx" where
  "getRootFileNames host languageModules c [] = ([], c)"
| "getRootFileNames host languageModules c (fileName # rest) =
     (let e = lsh_fileExists host languageModules c fileName;
          r = getRootFileNames host languageModules (snd e) rest
      in (if fst e = Some True then fileName # fst r else fst r, snd r))"

text \<open>The claim's words: the states in which the names are probed one after another, and
  the names whose probe answers true.\<close>

fun probeStates :: "Host \<Rightarrow> LanguageModule list \<Rightarrow> Ctx \<Rightarrow> string list \<Rightarrow> Ctx list" where
  "probeStates host languageModules c [] = []"
| "probeStates host languageModules c (fileName # rest) =
     c # probeStates host languageModules (snd (lsh_fileExists host languageModules c fileName)) rest"

definition stillExisting :: "Host \<Rightarrow> LanguageModule list \<Rightarrow> Ctx \<Rightarrow> string list \<Rightarrow> string list" where
  "stillExisting host languageModules c fileNames =
     map fst (filter (\<lambda>p. fst (lsh_fileExists host languageModules (snd p) (fst p)) = Some True)
                (zip fileNames (probeStates host languageModules c fileNames)))"

subsection \<open>Diagnostics\<close>

datatype ScriptTarget = JSON | Latest | ES2015

record SourceFile =
  sf_fileName :: string
  sf_text :: string
  sf_languageVersion :: ScriptTarget

datatype Diagnostic = Diagnostic
  (d_file: "SourceFile option")
  (d_start: "int option")
  (d_length: "int option")
  (d_messageText: string)
  (d_relatedInformation: "Diagnostic list option")

definition endsWith :: "string \<Rightarrow> string \<Rightarrow> bool" where
  "endsWith s e = (length e \<le> length s \<and> drop (length s - length e) s = e)"

definition createSourceFile :: "string \<Rightarrow> string \<Rightarrow> ScriptTarget \<Rightarrow> SourceFile" where
  "createSourceFile fileName docText scriptTarget =
     \<lparr> sf_fileName = fileName, sf_text = docText, sf_languageVersion = scriptTarget \<rparr>"

definition scriptTargetOf :: "string \<Rightarrow> ScriptTarget" where
  "scriptTargetOf fileName =
     (if endsWith fileName ''.js'' \<or> endsWith fileName ''.ts'' \<or> endsWith fileName ''.jsx''
         \<or> endsWith fileName ''.tsx'' \<or> endsWith fileName ''.mjs'' \<or> endsWith fileName ''.mts''
         \<or> endsWith fileName ''.cjs'' \<or> endsWith fileName ''.cts''
      then Latest else JSON)"

text \<open>The two inner loops over one map: the first match of the start offset that carries
  the diagnostic capability, then the first such match of the end offset.\<close>

definition firstDiagnostic :: "(int \<times> MappingRange) list \<Rightarrow> (int \<times> MappingRange) option" where
  "firstDiagnostic offsets = find (\<lambda>x. cap_diagnostic (range_data (snd x))) offsets"

definition findRange :: "MappingRange list \<Rightarrow> int \<Rightarrow> int \<Rightarrow> (int \<times> int) option" where
  "findRange smap start len =
     (case firstDiagnostic (toSourceOffsets smap start False) of
        None \<Rightarrow> None
      | Some s \<Rightarrow>
          (case firstDiagnostic (toSourceOffsets smap (start + len) True) of
             None \<Rightarrow> None
           | Some e \<Rightarrow> Some (fst s, fst e)))"

lemma size_related: "d_relatedInformation d = Some ri \<Longrightarrow> size_list size ri < size d"
  by (cases d) auto

text \<open>
  \<open>transformDiagnostics\<close> with its loop body \<open>transformDiagnostic\<close>, the loop over the
  maps of a unit \<open>overMaps\<close>, and the local function \<open>onMapping\<close>, which translates the
  related information by calling \<open>transformDiagnostics\<close> again. Each returns what it
  pushes on \<^verbatim>\<open>result\<close>, in order, and the context it leaves.
\<close>

function
  transformDiagnostics ::
    "Host \<Rightarrow> LanguageModule list \<Rightarrow> Ctx \<Rightarrow> Diagnostic list \<Rightarrow> Diagnostic list \<times> Ctx"
and transformDiagnostic ::
    "Host \<Rightarrow> LanguageModule list \<Rightarrow> Ctx \<Rightarrow> Diagnostic \<Rightarrow> Diagnostic list \<times> Ctx"
and overMaps ::
    "Host \<Rightarrow> LanguageModule list \<Rightarrow> Ctx \<Rightarrow> Diagnostic \<Rightarrow> Source
       \<Rightarrow> (string \<times> MappingRange list) list \<Rightarrow> Diagnostic list \<times> Ctx"
and onMapping ::
    "Host \<Rightarrow> LanguageModule list \<Rightarrow> Ctx \<Rightarrow> Diagnostic \<Rightarrow> string \<Rightarrow> int \<Rightarrow> int \<Rightarrow> string option
       \<Rightarrow> Diagnostic \<times> Ctx"
where
  "transformDiagnostics host mods c [] = ([], c)"
| "transformDiagnostics host mods c (diagnostic # rest) =
     (let r1 = transformDiagnostic host mods c diagnostic;
          r2 = transformDiagnostics host mods (snd r1) rest
      in (fst r1 @ fst r2, snd r2))"
| "transformDiagnostic host mods c diagnostic =
     (if d_file diagnostic \<noteq> None \<and> d_start diagnostic \<noteq> None \<and> d_length diagnostic \<noteq> None
      then
        (let file = the (d_file diagnostic);
             start = the (d_start diagnostic);
             len = the (d_length diagnostic);
             g = vfs_getVirtualFile host mods c (sf_fileName file)
         in case fst g of
              (Some virtualFile, Some source) \<Rightarrow>
                (let e = lsh_fileExists host mods (snd g) (src_fileName source)
                 in if fst e = Some False then ([], snd e)
                    else
                      (let ms = vfs_getMaps host mods (snd e) virtualFile
                       in overMaps host mods (snd ms) diagnostic source (fst ms)))
            | _ \<Rightarrow>
                (let e = lsh_fileExists host mods (snd g) (sf_fileName file)
                 in if fst e = Some False then ([], snd e)
                    else
                      (let r = onMapping host mods (snd e) diagnostic (sf_fileName file)
                                 start (start + len) (Some (sf_text file))
                       in ([fst r], snd r))))
      else if d_file diagnostic = None then ([diagnostic], c)
      else ([], c))"
| "overMaps host mods c diagnostic source [] = ([], c)"
| "overMaps host mods c diagnostic source (m # rest) =
     (if fst m \<noteq> src_fileName source then overMaps host mods c diagnostic source rest
      else
        (case findRange (snd m) (the (d_start diagnostic)) (the (d_length diagnostic)) of
           None \<Rightarrow> overMaps host mods c diagnostic source rest
         | Some se \<Rightarrow>
             (let r1 = onMapping host mods c diagnostic (src_fileName source) (fst se) (snd se)
                         (Some (snap_text (src_snapshot source)));
                  r2 = overMaps host mods (snd r1) diagnostic source rest
              in (fst r1 # fst r2, snd r2))))"
| "onMapping host mods c diagnostic fileName start end' docText =
     (let file0 = (if map_option sf_fileName (d_file diagnostic) = Some fileName
                   then d_file diagnostic else None);
          fc = (case file0 of
                  Some f \<Rightarrow> (Some f, c)
                | None \<Rightarrow>
                    (case docText of
                       None \<Rightarrow> (None, snd (lsh_getScriptSnapshot host mods c fileName))
                     | Some text \<Rightarrow>
                         (Some (createSourceFile fileName text (scriptTargetOf fileName)), c)));
          rc = (case d_relatedInformation diagnostic of
                  None \<Rightarrow> (None, snd fc)
                | Some relatedInformation \<Rightarrow>
                    (let t = transformDiagnostics host mods (snd fc) relatedInformation
                     in (Some (fst t), snd t)))
      in (Diagnostic (fst fc) (Some start) (Some (end' - start)) (d_messageText diagnostic) (fst rc),
          snd rc))"
  by pat_completeness auto
termination
  by (relation "inv_image (less_than <*lex*> less_than <*lex*> less_than) (\<lambda>x. case x of
          Inl (Inl (host, mods, c, ds)) \<Rightarrow> (size_list size ds, 0, 0)
        | Inl (Inr (host, mods, c, d)) \<Rightarrow> (size d, 2, 0)
        | Inr (Inl (host, mods, c, d, source, ms)) \<Rightarrow> (size d, 1, length ms)
        | Inr (Inr (host, mods, c, d, fileName, start, end', docText)) \<Rightarrow> (size d, 0 :: nat, 0 :: nat))")
     (auto simp: size_related)

declare transformDiagnostic.simps [simp del]
declare onMapping.simps [simp del]

section \<open>Writing the generated files\<close>

text \<open>
  The handler of \<^verbatim>\<open>WriteVirtualFilesNotification\<close>. \<open>writeLoop\<close> is its loop over
  the file names of the derived host view; it returns the calls of \<^verbatim>\<open>fs.writeFile\<close>
  (path and text) in order. \<open>sourceFiles\<close> is the set of the host's own script file
  names. Without a project or a language service the handler writes nothing.
\<close>

fun writeLoop ::
  "Host \<Rightarrow> LanguageModule list \<Rightarrow> Ctx \<Rightarrow> string list \<Rightarrow> string list \<Rightarrow> (string \<times> string) list \<times> Ctx" where
  "writeLoop host mods c sourceFiles [] = ([], c)"
| "writeLoop host mods c sourceFiles (virtualFile # rest) =
     (if startsWith virtualFile (h_getCurrentDirectory host) \<and> virtualFile \<notin> set sourceFiles
      then
        (let s = lsh_getScriptSnapshot host mods c virtualFile
         in case fst s of
              Some snapshot \<Rightarrow>
                (let r = writeLoop host mods (snd s) sourceFiles rest
                 in ((virtualFile, snap_text snapshot) # fst r, snd r))
            | None \<Rightarrow> writeLoop host mods (snd s) sourceFiles rest)
      else writeLoop host mods c sourceFiles rest)"

definition writeVirtualFiles :: "Host \<Rightarrow> LanguageModule list \<Rightarrow> Ctx \<Rightarrow> (string \<times> string) list \<times> Ctx" where
  "writeVirtualFiles host mods c =
     (let sourceFiles = new_Set (h_getScriptFileNames host);
          names = lsh_getScriptFileNames host mods c
      in writeLoop host mods (snd names) sourceFiles (fst names))"

definition onWriteVirtualFiles :: "(Host \<times> LanguageModule list \<times> Ctx) option \<Rightarrow> (string \<times> string) list" where
  "onWriteVirtualFiles ls =
     (case ls of
        None \<Rightarrow> []
      | Some (host, mods, c) \<Rightarrow> fst (writeVirtualFiles host mods c))"

section \<open>The workspace resolver\<close>

text \<open>
  The functions of the path library (\<^verbatim>\<open>typesafe-path/posix\<close>) that the resolver calls.
  They belong to no file of the repository and are taken as parameters, as is
  \<^verbatim>\<open>isFileInDir\<close> of \<^verbatim>\<open>./utils/isFileInDir\<close>, which is not among the sources.
\<close>

record Posix =
  path_dirname :: "string \<Rightarrow> string"
  path_basename :: "string \<Rightarrow> string"
  path_join :: "string \<Rightarrow> string \<Rightarrow> string"

text \<open>\<^verbatim>\<open>s.split(sep)\<close> for a separator of one character.\<close>

fun split :: "string \<Rightarrow> char \<Rightarrow> string list" where
  "split [] sep = [[]]"
| "split (c # cs) sep =
     (if c = sep then [] # split cs sep
      else (case split cs sep of
              [] \<Rightarrow> [[c]]
            | w # ws \<Rightarrow> (c # w) # ws))"

subsection \<open>\<^verbatim>\<open>sortTsConfigs\<close>\<close>

definition sortTsConfigs ::
  "Posix \<Rightarrow> (string \<Rightarrow> string \<Rightarrow> bool) \<Rightarrow> string \<Rightarrow> string \<Rightarrow> string \<Rightarrow> int" where
  "sortTsConfigs path isFileInDir file a b =
     (let inA = isFileInDir file (path_dirname path a);
          inB = isFileInDir file (path_dirname path b)
      in if inA \<noteq> inB
         then
           (let aWeight = (if inA then 1 else 0);
                bWeight = (if inB then 1 else 0)
            in bWeight - aWeight)
         else
           (let aLength = int (length (split a CHR ''/''));
                bLength = int (length (split b CHR ''/''))
            in if aLength = bLength
               then
                 (let aWeight = (if path_basename path a = ''tsconfig.json'' then 1 else 0);
                      bWeight = (if path_basename path b = ''tsconfig.json'' then 1 else 0)
                  in bWeight - aWeight)
               else bLength - aLength))"

subsection \<open>\<^verbatim>\<open>getReferencesChains\<close>\<close>

record ParsedCommandLine =
  projectReferences :: "string list option"
  fileNames :: "string list"

text \<open>
  The configurations that can be parsed are a finite table from path to parsed command
  line; \<^verbatim>\<open>getParsedCommandLine\<close> (which creates the project of a configuration and asks
  it) is the lookup, undefined for every other path.
\<close>

type_synonym Configs = "(string \<times> ParsedCommandLine) list"

definition getParsedCommandLine :: "Configs \<Rightarrow> string \<Rightarrow> ParsedCommandLine option" where
  "getParsedCommandLine configs tsConfig = map_of configs tsConfig"

definition refsOf :: "ParsedCommandLine \<Rightarrow> string list" where
  "refsOf p = (case projectReferences p of None \<Rightarrow> [] | Some rs \<Rightarrow> rs)"

text \<open>\<^verbatim>\<open>xs.indexOf(x)\<close>: the first index of \<open>x\<close>, \<open>-1\<close> when there is none.\<close>

definition indexOf :: "'a list \<Rightarrow> 'a \<Rightarrow> int" where
  "indexOf xs x = (if x \<in> set xs then int (length (takeWhile (\<lambda>y. y \<noteq> x) xs)) else - 1)"

text \<open>\<^verbatim>\<open>xs.slice(0, n)\<close> for \<open>n \<ge> 0\<close>.\<close>

definition slice0 :: "'a list \<Rightarrow> int \<Rightarrow> 'a list" where
  "slice0 xs n = take (nat n) xs"

definition replaceBackslashes :: "string \<Rightarrow> string" where
  "replaceBackslashes s = map (\<lambda>c. if c = CHR 0x5C then CHR ''/'' else c) s"

text \<open>The path of a project reference: a reference to a directory is completed to the
  configuration file in it (\<open>sys\<close> is \<open>None\<close> when the workspace has no file system
  host).\<close>

definition referencePath :: "Posix \<Rightarrow> (string \<Rightarrow> bool) option \<Rightarrow> string \<Rightarrow> string" where
  "referencePath path sys reference =
     (let tsConfigPath = replaceBackslashes reference
      in case sys of
           None \<Rightarrow> tsConfigPath
         | Some sys_fileExists \<Rightarrow>
             if \<not> sys_fileExists tsConfigPath
             then
               (let newTsConfigPath = path_join path tsConfigPath ''tsconfig.json'';
                    newJsConfigPath = path_join path tsConfigPath ''jsconfig.json''
                in if sys_fileExists newTsConfigPath then newTsConfigPath
                   else if sys_fileExists newJsConfigPath then newJsConfigPath
                   else tsConfigPath)
             else tsConfigPath)"

text \<open>What the termination argument counts: the parsable configurations among
  \<open>before\<close>, and among \<open>before\<close> with the current configuration.\<close>

definition seenConfigs :: "Configs \<Rightarrow> string \<Rightarrow> string list \<Rightarrow> nat" where
  "seenConfigs configs tsConfig before =
     card (set before \<inter> set (map fst configs))
     + card (insert tsConfig (set before) \<inter> set (map fst configs))"

lemma seenConfigs_bound: "seenConfigs configs tsConfig before \<le> 2 * card (set (map fst configs))"
proof -
  have "card (set before \<inter> set (map fst configs)) \<le> card (set (map fst configs))"
    by (simp add: card_mono)
  moreover have "card (insert tsConfig (set before) \<inter> set (map fst configs))
                   \<le> card (set (map fst configs))"
    by (simp add: card_mono)
  ultimately show ?thesis by (simp add: seenConfigs_def)
qed

lemma seenConfigs_grows:
  assumes "tsConfigPath \<notin> set before" "tsConfigPath \<in> set (map fst configs)"
  shows "seenConfigs configs tsConfig before < seenConfigs configs tsConfigPath (before @ [tsConfig])"
proof -
  let ?K = "set (map fst configs)"
  have "insert tsConfigPath (set before \<inter> ?K) \<subseteq> insert tsConfigPath (set (before @ [tsConfig])) \<inter> ?K"
    using assms by auto
  then have "card (insert tsConfigPath (set before \<inter> ?K))
               \<le> card (insert tsConfigPath (set (before @ [tsConfig])) \<inter> ?K)"
    by (intro card_mono) auto
  moreover have "card (insert tsConfigPath (set before \<inter> ?K)) = Suc (card (set before \<inter> ?K))"
    using assms by simp
  moreover have "set (before @ [tsConfig]) \<inter> ?K = insert tsConfig (set before) \<inter> ?K"
    by auto
  ultimately show ?thesis by (simp add: seenConfigs_def)
qed

function getReferencesChains ::
  "Posix \<Rightarrow> (string \<Rightarrow> bool) option \<Rightarrow> Configs \<Rightarrow> ParsedCommandLine \<Rightarrow> string \<Rightarrow> string list
     \<Rightarrow> string list list" where
  "getReferencesChains path sys configs parsedCommandLine tsConfig before =
     (if projectReferences parsedCommandLine \<noteq> None \<and> the (projectReferences parsedCommandLine) \<noteq> []
      then
        concat (map
          (\<lambda>projectReference.
             let tsConfigPath = referencePath path sys projectReference;
                 beforeIndex = indexOf before tsConfigPath
             in if beforeIndex \<ge> 0 then [slice0 before (max beforeIndex 1)]
                else
                  (case getParsedCommandLine configs tsConfigPath of
                     Some referenceParsedCommandLine \<Rightarrow>
                       getReferencesChains path sys configs referenceParsedCommandLine tsConfigPath
                         (before @ [tsConfig])
                   | None \<Rightarrow> []))
          (the (projectReferences parsedCommandLine)))
      else [before @ [tsConfig]])"
  by pat_completeness auto
termination
proof (relation "measure (\<lambda>(path, sys, configs, parsedCommandLine, tsConfig, before).
                   2 * card (set (map fst configs)) - seenConfigs configs tsConfig before)",
       goal_cases)
  case 1
  then show ?case by simp
next
  case (2 path sys configs parsedCommandLine tsConfig before projectReference tsConfigPath
          beforeIndex referenceParsedCommandLine)
  from 2 have a: "tsConfigPath \<notin> set before"
    by (auto simp: indexOf_def split: if_splits)
  from 2 have b: "tsConfigPath \<in> set (map fst configs)"
    by (auto simp: getParsedCommandLine_def dest!: map_of_SomeD intro: rev_image_eqI)
  from seenConfigs_grows [OF a b, of tsConfig]
       seenConfigs_bound [of configs tsConfigPath "before @ [tsConfig]"]
  show ?case by simp
qed

declare getReferencesChains.simps [simp del]

section \<open>Example configurations\<close>

text \<open>
  A small project used to run the model on concrete inputs: a composite document
  \<^verbatim>\<open>/a.vue\<close>, a plain file \<^verbatim>\<open>/b.ts\<close>, and one language module that accepts the language
  id \<^verbatim>\<open>vue\<close> and generates a root unit with one engine-visible child.
\<close>

definition exSnapA :: Snapshot where
  "exSnapA = Snapshot 1 ''<script>let a = 1</script>''"

definition exSnapA2 :: Snapshot where
  "exSnapA2 = Snapshot 2 ''<script>let a = 2</script>''"

definition exSnapTs :: Snapshot where
  "exSnapTs = Snapshot 3 ''export {}''"

definition exRanges :: "MappingRange list" where
  "exRanges =
     [\<lparr> generatedRange = (0, 9), sourceRange = (8, 17),
        range_data = \<lparr> cap_diagnostic = True, cap_rename = True \<rparr> \<rparr>]"

definition exModule :: LanguageModule where
  "exModule fileName snapshot languageId =
     (if languageId = Some ''vue''
      then Some (VirtualFile fileName snapshot TextFile False []
                  [VirtualFile (fileName @ ''.ts'')
                     (Snapshot (snap_id snapshot + 100) (take 9 (drop 8 (snap_text snapshot))))
                     TypeScriptHostFile True
                     [\<lparr> m_source = None, m_ranges = exRanges \<rparr>] []])
      else None)"

definition exHost :: Host where
  "exHost = \<lparr> h_getProjectVersion = None,
              h_getScriptFileNames = [''/a.vue'', ''/b.ts''],
              h_getScriptVersion = (\<lambda>f. ''1''),
              h_getScriptSnapshot =
                (\<lambda>f. if f = ''/a.vue'' then Some exSnapA
                      else if f = ''/b.ts'' then Some exSnapTs else None),
              h_getScriptLanguageId = (\<lambda>f. if f = ''/a.vue'' then Some ''vue'' else None),
              h_fileExists = Some (\<lambda>f. f = ''/a.vue'' \<or> f = ''/b.ts''),
              h_isTsc = False,
              h_getCurrentDirectory = ''/'' \<rparr>"

text \<open>The store after \<^verbatim>\<open>/a.vue\<close> was registered, and after it was edited.\<close>

definition exStore :: "Source list" where
  "exStore = snd (updateSource [exModule] [] ''/a.vue'' exSnapA (Some ''vue''))"

definition exStore2 :: "Source list" where
  "exStore2 = snd (updateSource [exModule] exStore ''/a.vue'' exSnapA2 (Some ''vue''))"

definition exCtx :: Ctx where
  "exCtx = initialCtx\<lparr> virtualFiles := exStore \<rparr>"

text \<open>The context after one version query for the generated unit, and the same context
  once the document has been edited.\<close>

definition exCtxAsked :: Ctx where
  "exCtxAsked = snd (getScriptVersion exHost exCtx ''/a.vue.ts'')"

definition exCtxEdited :: Ctx where
  "exCtxEdited = exCtxAsked\<lparr> virtualFiles := exStore2 \<rparr>"

text \<open>A host that has lost every snapshot but still reports the same versions.\<close>

definition exHostGone :: Host where
  "exHostGone = exHost\<lparr> h_getScriptSnapshot := (\<lambda>f. None) \<rparr>"

definition exCtxRead :: Ctx where
  "exCtxRead = snd (getScriptSnapshot exHost initialCtx ''/b.ts'')"

text \<open>
  A host with the plain file \<^verbatim>\<open>/b.ts\<close> only, polled twice: at the second poll the host
  reports another project version, and nothing else differs.
\<close>

definition exTsHost1 :: Host where
  "exTsHost1 = \<lparr> h_getProjectVersion = Some ''1'',
                 h_getScriptFileNames = [''/b.ts''],
                 h_getScriptVersion = (\<lambda>f. ''1''),
                 h_getScriptSnapshot = (\<lambda>f. if f = ''/b.ts'' then Some exSnapTs else None),
                 h_getScriptLanguageId = (\<lambda>f. None),
                 h_fileExists = Some (\<lambda>f. f = ''/b.ts''),
                 h_isTsc = False,
                 h_getCurrentDirectory = ''/'' \<rparr>"

definition exTsHost2 :: Host where
  "exTsHost2 = exTsHost1\<lparr> h_getProjectVersion := Some ''2'' \<rparr>"

definition exCycle1 :: Ctx where
  "exCycle1 = update exTsHost1 [] initialCtx"

definition exCycle2 :: Ctx where
  "exCycle2 = update exTsHost2 [] exCycle1"

text \<open>The project of \<open>exHost\<close> after two update cycles: \<^verbatim>\<open>/a.vue\<close> is tracked and its
  host version recorded.\<close>

definition exSettled :: Ctx where
  "exSettled = update exHost [exModule] (update exHost [exModule] initialCtx)"

text \<open>The host after \<^verbatim>\<open>/a.vue\<close> was edited; the engine has not yet asked for the version
  of any generated unit.\<close>

definition exHostEdited :: Host where
  "exHostEdited = exHost\<lparr>
     h_getScriptVersion := (\<lambda>f. if f = ''/a.vue'' then ''2'' else ''1''),
     h_getScriptSnapshot :=
       (\<lambda>f. if f = ''/a.vue'' then Some exSnapA2
             else if f = ''/b.ts'' then Some exSnapTs else None) \<rparr>"

text \<open>
  Diagnostics of the engine against the generated unit \<^verbatim>\<open>/a.vue.ts\<close>, whose text
  \<^verbatim>\<open>let a = 1\<close> is mapped to the offsets 8 to 17 of \<^verbatim>\<open>/a.vue\<close>: one inside the mapped
  range, one outside every range, one without a start, and one without a file.
\<close>

definition exGenerated :: SourceFile where
  "exGenerated = \<lparr> sf_fileName = ''/a.vue.ts'', sf_text = ''let a = 1'', sf_languageVersion = Latest \<rparr>"

definition exDiagMapped :: Diagnostic where
  "exDiagMapped = Diagnostic (Some exGenerated) (Some 4) (Some 1) ''unused variable'' None"

definition exDiagUnmapped :: Diagnostic where
  "exDiagUnmapped = Diagnostic (Some exGenerated) (Some 20) (Some 1) ''stray'' None"

definition exDiagNoStart :: Diagnostic where
  "exDiagNoStart = Diagnostic (Some exGenerated) None (Some 1) ''no position'' None"

definition exDiagGlobal :: Diagnostic where
  "exDiagGlobal = Diagnostic None None None ''global'' None"

text \<open>A host without a \<^verbatim>\<open>fileExists\<close> of its own.\<close>

definition exHostBlind :: Host where
  "exHostBlind = exHost\<lparr> h_fileExists := None \<rparr>"

text \<open>
  Path functions that agree with the POSIX ones on the absolute paths of the examples
  (no trailing slash, no \<^verbatim>\<open>.\<close> or \<^verbatim>\<open>..\<close> segment, a directory below the root).
\<close>

definition exPosix :: Posix where
  "exPosix = \<lparr> path_dirname = (\<lambda>p. rev (tl (dropWhile (\<lambda>c. c \<noteq> CHR ''/'') (rev p)))),
               path_basename = (\<lambda>p. rev (takeWhile (\<lambda>c. c \<noteq> CHR ''/'') (rev p))),
               path_join = (\<lambda>a b. a @ ''/'' @ b) \<rparr>"

definition exInDir :: "string \<Rightarrow> string \<Rightarrow> bool" where
  "exInDir file dir = startsWith file (dir @ ''/'')"

text \<open>
  A configuration that references itself and a second configuration, and a pair of
  configurations that reference each other. Every referenced file exists.
\<close>

definition exSys :: "string \<Rightarrow> bool" where
  "exSys p = True"

definition exSelfRoot :: ParsedCommandLine where
  "exSelfRoot = \<lparr> projectReferences = Some [''/p/tsconfig.json'', ''/q/tsconfig.json''],
                  fileNames = [] \<rparr>"

definition exLeaf :: ParsedCommandLine where
  "exLeaf = \<lparr> projectReferences = None, fileNames = [] \<rparr>"

definition exConfigsSelf :: Configs where
  "exConfigsSelf = [(''/p/tsconfig.json'', exSelfRoot), (''/q/tsconfig.json'', exLeaf)]"

definition exMutualA :: ParsedCommandLine where
  "exMutualA = \<lparr> projectReferences = Some [''/b/tsconfig.json''], fileNames = [] \<rparr>"

definition exMutualB :: ParsedCommandLine where
  "exMutualB = \<lparr> projectReferences = Some [''/a/tsconfig.json''], fileNames = [] \<rparr>"

definition exConfigsMutual :: Configs where
  "exConfigsMutual = [(''/a/tsconfig.json'', exMutualA), (''/b/tsconfig.json'', exMutualB)]"

section \<open>Built-ins\<close>

lemma toString_nonempty: "toString n \<noteq> []"
  by (subst toString.simps) simp

lemma digit_char_inj:
  "a < 10 \<Longrightarrow> b < 10 \<Longrightarrow> char_of (48 + a :: nat) = char_of (48 + b) \<Longrightarrow> a = b"
  by (simp add: char_of_eq_iff take_bit_nat_eq_self)

lemma toString_small: "n < 10 \<Longrightarrow> toString n = [char_of (48 + n)]"
  by (subst toString.simps) simp

lemma toString_large:
  "\<not> n < 10 \<Longrightarrow> toString n = toString (n div 10) @ [char_of (48 + n mod 10)]"
  by (subst toString.simps) simp

text \<open>Distinct numbers have distinct decimal renderings.\<close>

lemma toString_inj: "toString n = toString m \<Longrightarrow> n = m"
proof (induction n arbitrary: m rule: toString.induct)
  case (1 n)
  show ?case
  proof (cases "n < 10")
    case True
    note sn = toString_small [OF True]
    show ?thesis
    proof (cases "m < 10")
      case mt: True
      from sn "1.prems" True mt toString_small [OF mt] show ?thesis
        by (auto dest: digit_char_inj)
    next
      case mf: False
      from sn "1.prems" toString_nonempty [of "m div 10"] toString_large [OF mf] show ?thesis
        by auto
    qed
  next
    case False
    note sn = toString_large [OF False]
    show ?thesis
    proof (cases "m < 10")
      case mt: True
      from sn "1.prems" toString_nonempty [of "n div 10"] toString_small [OF mt] show ?thesis
        by auto
    next
      case mf: False
      from sn "1.prems" toString_large [OF mf] have e: "toString (n div 10) = toString (m div 10)"
        and d: "char_of (48 + n mod 10) = (char_of (48 + m mod 10) :: char)"
        by auto
      from "1.IH" [OF False e] have q: "n div 10 = m div 10" .
      from d have r: "n mod 10 = m mod 10" by (auto dest!: digit_char_inj [rotated 2])
      from q r show ?thesis by (metis div_mult_mod_eq)
    qed
  qed
qed

lemma lastIndexOf_ext:
  assumes "ext \<in> {''.js'', ''.ts'', ''.jsx'', ''.tsx''}"
  shows "lastIndexOf (stem @ ext) CHR ''.'' = int (length stem)"
proof -
  from assms obtain rest where e: "ext = CHR ''.'' # rest" and r: "CHR ''.'' \<notin> set rest"
    by auto
  have "takeWhile (\<lambda>x. x \<noteq> CHR ''.'') (rev (stem @ ext)) = rev rest"
    using r by (auto simp: e takeWhile_tail)
  then show ?thesis by (simp add: lastIndexOf_def e)
qed

lemma substring_from_ext: "substring_from (stem @ ext) (int (length stem)) = ext"
  by (simp add: substring_from_def clamp_index_def)

lemma substring_stem: "substring (stem @ ext) 0 (int (length stem)) = stem"
  by (simp add: substring_def clamp_index_def)

section \<open>The store\<close>

lemma putSource_mem: "new \<in> set (putSource st new)"
  by (induction st) auto

lemma hasVirtualFile_iff:
  "hasVirtualFile st n = (\<exists>us \<in> set (unitsOf st). vf_fileName (fst us) = n)"
  by (auto simp: hasVirtualFile_def getVirtualFile_def find_None_iff find_Some_iff
        split: option.splits dest: nth_mem)

text \<open>Once a language module has accepted a document, every unit of the generated tree
  is found by the reverse lookup.\<close>

lemma updateSource_discoverable:
  assumes "updateSource mods st fileName snapshot languageId = (Some root, st')"
      and "u \<in> set (forEachEmbeddedFile root)"
  shows "hasVirtualFile st' (vf_fileName u)"
proof -
  define new where "new = \<lparr> src_fileName = fileName, src_languageId = languageId,
                          src_snapshot = snapshot, src_root = root \<rparr>"
  from assms(1) have "st' = putSource st new"
    by (auto simp: updateSource_def new_def split: option.splits)
  then have "new \<in> set st'" by (simp add: putSource_mem)
  with assms(2) have "(u, new) \<in> set (unitsOf st')"
    by (force simp: unitsOf_def new_def)
  then show ?thesis unfolding hasVirtualFile_iff by force
qed

lemma putSource_idem: "putSource (putSource st new) new = putSource st new"
  by (induction st) auto

text \<open>Registering a document twice with the same snapshot and language id leaves the
  store as the first registration left it.\<close>

lemma updateSource_idem:
  "updateSource mods (snd (updateSource mods st fileName snapshot languageId)) fileName snapshot languageId
     = updateSource mods st fileName snapshot languageId"
  by (simp add: updateSource_def putSource_idem split: option.splits)

section \<open>Version tokens\<close>

text \<open>
  Claim C3. When a path resolves to a generated unit and its owning document,
  \<open>getScriptVersion\<close> answers the decimal string of the unit's Version Token \<open>n\<close>, which
  it has recorded for the unit. At the next call for that path, with the unit's record
  as the first call left it, the answer is the string of \<open>n + 1\<close> when the unit's own
  snapshot is another object than at the first call, or, with \<open>isTsc\<close>, when the owning
  document's snapshot is; otherwise it is the string of \<open>n\<close>. So the two answers are equal
  exactly when both snapshot identities are unchanged (only the unit's own, without
  \<open>isTsc\<close>).
\<close>

theorem getScriptVersion_token:
  assumes r1: "getVirtualFile (virtualFiles c) fileName = (Some vf, Some src)"
      and r2: "getVirtualFile (virtualFiles c') fileName = (Some vf', Some src')"
      and same_unit: "vf_fileName vf' = vf_fileName vf"
      and between: "virtualFileVersions c' (vf_fileName vf) =
                    virtualFileVersions (snd (getScriptVersion host c fileName)) (vf_fileName vf)"
  shows "(\<exists>n. fst (getScriptVersion host c fileName) = toString n \<and>
              map_option ver_value
                (virtualFileVersions (snd (getScriptVersion host c fileName)) (vf_fileName vf)) = Some n \<and>
              fst (getScriptVersion host c' fileName) =
                toString (if vf_snapshot vf' \<noteq> vf_snapshot vf
                             \<or> (h_isTsc host \<and> src_snapshot src' \<noteq> src_snapshot src)
                          then n + 1 else n))
         \<and> ((fst (getScriptVersion host c' fileName) = fst (getScriptVersion host c fileName))
              = (vf_snapshot vf' = vf_snapshot vf
                   \<and> (h_isTsc host \<longrightarrow> src_snapshot src' = src_snapshot src)))"
proof -
  have 1: "\<exists>n. fst (getScriptVersion host c fileName) = toString n \<and>
              map_option ver_value
                (virtualFileVersions (snd (getScriptVersion host c fileName)) (vf_fileName vf)) = Some n \<and>
              fst (getScriptVersion host c' fileName) =
                toString (if vf_snapshot vf' \<noteq> vf_snapshot vf
                             \<or> (h_isTsc host \<and> src_snapshot src' \<noteq> src_snapshot src)
                          then n + 1 else n)"
    using assms by (auto simp: getScriptVersion_def split: option.splits)
  then obtain n where a: "fst (getScriptVersion host c fileName) = toString n"
    and b: "fst (getScriptVersion host c' fileName) =
                toString (if vf_snapshot vf' \<noteq> vf_snapshot vf
                             \<or> (h_isTsc host \<and> src_snapshot src' \<noteq> src_snapshot src)
                          then n + 1 else n)"
    by blast
  have 2: "(fst (getScriptVersion host c' fileName) = fst (getScriptVersion host c fileName))
              = (vf_snapshot vf' = vf_snapshot vf
                   \<and> (h_isTsc host \<longrightarrow> src_snapshot src' = src_snapshot src))"
    unfolding a b by (auto dest: toString_inj)
  from 1 2 show ?thesis by blast
qed

theorem getScriptVersion_token_witness:
  "fst (getScriptVersion exHost exCtx ''/a.vue.ts'') = ''0''
   \<and> fst (getScriptVersion exHost exCtxAsked ''/a.vue.ts'') = ''0''
   \<and> fst (getScriptVersion exHost exCtxEdited ''/a.vue.ts'') = ''1''"
proof -
  define vf where "vf = VirtualFile ''/a.vue.ts'' (Snapshot 101 ''let a = 1'') TypeScriptHostFile True
                          [\<lparr> m_source = None, m_ranges = exRanges \<rparr>] []"
  define vf' where "vf' = VirtualFile ''/a.vue.ts'' (Snapshot 102 ''let a = 2'') TypeScriptHostFile True
                          [\<lparr> m_source = None, m_ranges = exRanges \<rparr>] []"
  define src where "src = hd exStore"
  define src' where "src' = hd exStore2"
  have r1: "getVirtualFile (virtualFiles exCtx) ''/a.vue.ts'' = (Some vf, Some src)"
    unfolding vf_def src_def by code_simp
  have r1': "getVirtualFile (virtualFiles exCtxAsked) ''/a.vue.ts'' = (Some vf, Some src)"
    unfolding vf_def src_def by code_simp
  have r2: "getVirtualFile (virtualFiles exCtxEdited) ''/a.vue.ts'' = (Some vf', Some src')"
    unfolding vf'_def src'_def by code_simp
  have n: "vf_fileName vf' = vf_fileName vf" "vf_fileName vf = vf_fileName vf"
    by (simp_all add: vf_def vf'_def)
  have k: "virtualFileVersions exCtxEdited (vf_fileName vf) =
           virtualFileVersions (snd (getScriptVersion exHost exCtx ''/a.vue.ts'')) (vf_fileName vf)"
    by (simp add: exCtxEdited_def exCtxAsked_def)
  have k': "virtualFileVersions exCtxAsked (vf_fileName vf) =
           virtualFileVersions (snd (getScriptVersion exHost exCtx ''/a.vue.ts'')) (vf_fileName vf)"
    by (simp add: exCtxAsked_def)
  have z: "fst (getScriptVersion exHost exCtx ''/a.vue.ts'') = ''0''"
    by code_simp
  have d: "vf_snapshot vf' \<noteq> vf_snapshot vf" by (simp add: vf_def vf'_def)
  have i: "\<not> h_isTsc exHost" by (simp add: exHost_def)
  from getScriptVersion_token [OF r1 r2 n(1) k]
       getScriptVersion_token [OF r1 r1' n(2) k'] z d i
  have "fst (getScriptVersion exHost exCtxEdited ''/a.vue.ts'') \<noteq> ''0''"
    and "fst (getScriptVersion exHost exCtxAsked ''/a.vue.ts'') = ''0''"
    by auto
  moreover have "fst (getScriptVersion exHost exCtxEdited ''/a.vue.ts'') = ''1''"
    by code_simp
  ultimately show ?thesis using z by simp
qed

section \<open>File-existence probing\<close>

text \<open>
  Claim C6. Let the probed path be a stem followed by one of the host-language
  extensions \<^verbatim>\<open>.js\<close>, \<^verbatim>\<open>.ts\<close>, \<^verbatim>\<open>.jsx\<close>, \<^verbatim>\<open>.tsx\<close>, where the stem is not a tracked source
  document and the host supplies a snapshot for it. Then the derived host view has a
  \<open>fileExists\<close>, which first runs \<open>updateSource\<close> on the stem and then answers true exactly
  when the probed path is a virtual file of the updated store or the raw host
  \<open>fileExists\<close> answers true. When a language module accepted the stem, every unit of
  the generated tree is a known virtual file afterwards.
\<close>

theorem fileExists_registers_stem:
  assumes ext: "ext \<in> {''.js'', ''.ts'', ''.jsx'', ''.tsx''}"
      and untracked: "\<not> hasSource (virtualFiles c) stem"
      and supplied: "h_getScriptSnapshot host stem = Some snapshot"
      and raw: "h_fileExists host = Some raw"
      and reg: "updateSource mods (virtualFiles c) stem snapshot (h_getScriptLanguageId host stem)
                  = (root, st')"
  shows "tsHost_fileExists host mods = Some (fileExists host mods)
         \<and> fileExists host mods c (stem @ ext) =
             (hasVirtualFile st' (stem @ ext) \<or> raw (stem @ ext), c\<lparr> virtualFiles := st' \<rparr>)
         \<and> (\<forall>r. root = Some r \<longrightarrow>
               (\<forall>u \<in> set (forEachEmbeddedFile r). hasVirtualFile st' (vf_fileName u)))"
proof -
  have e: "substring_from (stem @ ext) (lastIndexOf (stem @ ext) CHR ''.'') = ext"
    by (simp add: lastIndexOf_ext [OF ext] substring_from_ext)
  have s: "substring (stem @ ext) 0 (lastIndexOf (stem @ ext) CHR ''.'') = stem"
    by (simp add: lastIndexOf_ext [OF ext] substring_stem)
  have x: "ext = ''.js'' \<or> ext = ''.ts'' \<or> ext = ''.jsx'' \<or> ext = ''.tsx''"
    using ext by blast
  have 1: "tsHost_fileExists host mods = Some (fileExists host mods)"
    by (simp add: tsHost_fileExists_def raw)
  have 2: "fileExists host mods c (stem @ ext) =
             (hasVirtualFile st' (stem @ ext) \<or> raw (stem @ ext), c\<lparr> virtualFiles := st' \<rparr>)"
    unfolding fileExists_def e s Let_def using x untracked
    by (simp add: supplied raw reg)
  have 3: "\<forall>r. root = Some r \<longrightarrow>
             (\<forall>u \<in> set (forEachEmbeddedFile r). hasVirtualFile st' (vf_fileName u))"
    using reg updateSource_discoverable by blast
  from 1 2 3 show ?thesis by blast
qed

theorem fileExists_registers_stem_witness:
  "fileExists exHost [exModule] initialCtx ''/a.vue.ts'' = (True, initialCtx\<lparr> virtualFiles := exStore \<rparr>)
   \<and> hasVirtualFile exStore ''/a.vue''
   \<and> \<not> hasVirtualFile (virtualFiles initialCtx) ''/a.vue.ts''"
proof -
  define root where "root = fst (updateSource [exModule] [] ''/a.vue'' exSnapA (Some ''vue''))"
  define raw where "raw = (\<lambda>f. f = ''/a.vue'' \<or> f = ''/b.ts'')"
  have ext: "''.ts'' \<in> {''.js'', ''.ts'', ''.jsx'', ''.tsx''}" by simp
  have untracked: "\<not> hasSource (virtualFiles initialCtx) ''/a.vue''"
    by (simp add: initialCtx_def hasSource_def)
  have supplied: "h_getScriptSnapshot exHost ''/a.vue'' = Some exSnapA"
    by (simp add: exHost_def)
  have rawh: "h_fileExists exHost = Some raw" by (simp add: exHost_def raw_def)
  have reg: "updateSource [exModule] (virtualFiles initialCtx) ''/a.vue'' exSnapA
               (h_getScriptLanguageId exHost ''/a.vue'') = (root, exStore)"
    by (simp add: root_def exStore_def initialCtx_def exHost_def)
  have v: "hasVirtualFile exStore ''/a.vue.ts''" by code_simp
  have w: "hasVirtualFile exStore ''/a.vue''" by code_simp
  have n: "\<not> hasVirtualFile (virtualFiles initialCtx) ''/a.vue.ts''" by code_simp
  from fileExists_registers_stem [OF ext untracked supplied rawh reg] v w n
  show ?thesis by simp
qed

section \<open>Snapshot retrieval\<close>

lemma getScriptVersion_scriptSnapshots:
  "scriptSnapshots (snd (getScriptVersion host c fileName)) = scriptSnapshots c"
  by (auto simp: getScriptVersion_def split: option.splits prod.splits)

lemma getScriptSnapshot_records:
  assumes "getScriptSnapshot host c fileName = (Some snapshot, c1)"
  shows "scriptSnapshots c1 (toLowerCase fileName)
           = Some (fst (getScriptVersion host c fileName), snapshot)"
  using assms
  by (auto simp: getScriptSnapshot_def Let_def getScriptVersion_scriptSnapshots
           split: if_splits option.splits)

text \<open>
  Claim C7. When a call of \<open>getScriptSnapshot\<close> for a path has returned a snapshot, a
  later call for the same path that finds the cache entry of the path as the first call
  left it and computes the same version string returns that very snapshot from the
  cache: whatever the host and the store hold by then, nothing is read from them and
  nothing new is recorded (the context that results is the one the version query
  leaves).
\<close>

theorem getScriptSnapshot_cached:
  assumes first: "getScriptSnapshot host c fileName = (Some snapshot, c1)"
      and kept: "scriptSnapshots c' (toLowerCase fileName) = scriptSnapshots c1 (toLowerCase fileName)"
      and same_version: "fst (getScriptVersion host' c' fileName) = fst (getScriptVersion host c fileName)"
  shows "getScriptSnapshot host' c' fileName = (Some snapshot, snd (getScriptVersion host' c' fileName))"
  using getScriptSnapshot_records [OF first] kept same_version
  by (simp add: getScriptSnapshot_def Let_def getScriptVersion_scriptSnapshots)

theorem getScriptSnapshot_cached_witness:
  "fst (getScriptSnapshot exHost initialCtx ''/b.ts'') = Some exSnapTs
   \<and> h_getScriptSnapshot exHostGone ''/b.ts'' = None
   \<and> fst (getScriptSnapshot exHostGone exCtxRead ''/b.ts'') = Some exSnapTs"
proof -
  have f: "fst (getScriptSnapshot exHost initialCtx ''/b.ts'') = Some exSnapTs"
    by code_simp
  then have first: "getScriptSnapshot exHost initialCtx ''/b.ts'' = (Some exSnapTs, exCtxRead)"
    by (simp add: exCtxRead_def prod_eq_iff)
  have same_version: "fst (getScriptVersion exHostGone exCtxRead ''/b.ts'')
                        = fst (getScriptVersion exHost initialCtx ''/b.ts'')"
    by code_simp
  have g: "h_getScriptSnapshot exHostGone ''/b.ts'' = None"
    by (simp add: exHostGone_def)
  from getScriptSnapshot_cached [OF first refl same_version] f g
  show ?thesis by simp
qed

section \<open>The update cycle\<close>

lemma refreshSource_counter:
  "tsProjectVersion (u_ctx (refreshSource host mods f v)) = tsProjectVersion (u_ctx v)"
  by (simp add: refreshSource_def Let_def split: option.splits)

lemma addRootFile_counter:
  "tsProjectVersion (u_ctx (addRootFile host mods f v)) = tsProjectVersion (u_ctx v)"
  by (simp add: addRootFile_def Let_def split: option.splits)

lemma refreshTsFile_counter:
  "tsProjectVersion (u_ctx (refreshTsFile host old v)) = tsProjectVersion (u_ctx v)"
  by (simp add: refreshTsFile_def Let_def)

lemma addTsFile_counter:
  "tsProjectVersion (u_ctx (addTsFile host f v)) = tsProjectVersion (u_ctx v)"
  by (simp add: addTsFile_def Let_def)

lemma fold_counter:
  assumes "\<And>x v. tsProjectVersion (u_ctx (body x v)) = tsProjectVersion (u_ctx v)"
  shows "tsProjectVersion (u_ctx (fold body xs v)) = tsProjectVersion (u_ctx v)"
  by (induction xs arbitrary: v) (simp_all add: assms)

lemma syncDocuments_counter:
  "tsProjectVersion (u_ctx (syncDocuments host mods c)) = tsProjectVersion c"
  by (simp add: syncDocuments_def Let_def fold_counter refreshSource_counter addRootFile_counter)

lemma syncPlainFiles_counter:
  "tsProjectVersion (u_ctx (syncPlainFiles host v)) = tsProjectVersion (u_ctx v)"
  by (simp add: syncPlainFiles_def Let_def fold_counter refreshTsFile_counter addTsFile_counter)

text \<open>The first loop sets the flag exactly when the host has lost the snapshot of a
  tracked document.\<close>

lemma fold_refreshSource_should:
  "shouldUpdateTsProject (fold (refreshSource host mods) fs v)
     = (shouldUpdateTsProject v \<or> (\<exists>f \<in> set fs. h_getScriptSnapshot host f = None))"
proof (induction fs arbitrary: v)
  case Nil
  then show ?case by simp
next
  case (Cons f fs)
  have "shouldUpdateTsProject (refreshSource host mods f v)
          = (shouldUpdateTsProject v \<or> h_getScriptSnapshot host f = None)"
    by (simp add: refreshSource_def Let_def split: option.splits)
  with Cons.IH [of "refreshSource host mods f v"] show ?case by auto
qed

lemma refreshSource_num_mono:
  "virtualFilesUpdatedNum v \<le> virtualFilesUpdatedNum (refreshSource host mods f v)"
  by (simp add: refreshSource_def Let_def split: option.splits)

lemma fold_refreshSource_num_mono:
  "virtualFilesUpdatedNum v \<le> virtualFilesUpdatedNum (fold (refreshSource host mods) fs v)"
proof (induction fs arbitrary: v)
  case Nil
  then show ?case by simp
next
  case (Cons f fs)
  from refreshSource_num_mono [of v host mods f] Cons.IH [of "refreshSource host mods f v"]
  show ?case by simp
qed

lemma refreshSource_unchanged:
  assumes "h_getScriptSnapshot host f \<noteq> None"
      and "sourceFileVersions (u_ctx v) f = Some (h_getScriptVersion host f)"
  shows "refreshSource host mods f v = v\<lparr> remainRootFiles := removeAll f (remainRootFiles v) \<rparr>"
  using assms by (auto simp: refreshSource_def Let_def)

lemma refreshSource_changed:
  assumes "h_getScriptSnapshot host f = None
           \<or> sourceFileVersions (u_ctx v) f \<noteq> Some (h_getScriptVersion host f)"
  shows "virtualFilesUpdatedNum (refreshSource host mods f v) = virtualFilesUpdatedNum v + 1"
  using assms by (auto simp: refreshSource_def Let_def split: option.splits)

text \<open>The first loop leaves the count at zero exactly when every tracked document still
  has a snapshot and its recorded host version.\<close>

lemma fold_refreshSource_num:
  "(virtualFilesUpdatedNum (fold (refreshSource host mods) fs v) = 0)
     = (virtualFilesUpdatedNum v = 0
        \<and> (\<forall>f \<in> set fs. h_getScriptSnapshot host f \<noteq> None
              \<and> sourceFileVersions (u_ctx v) f = Some (h_getScriptVersion host f)))"
proof (induction fs arbitrary: v)
  case Nil
  then show ?case by simp
next
  case (Cons f fs)
  show ?case
  proof (cases "h_getScriptSnapshot host f \<noteq> None
                \<and> sourceFileVersions (u_ctx v) f = Some (h_getScriptVersion host f)")
    case True
    then have s: "refreshSource host mods f v = v\<lparr> remainRootFiles := removeAll f (remainRootFiles v) \<rparr>"
      by (simp add: refreshSource_unchanged)
    show ?thesis
      using Cons.IH [of "v\<lparr> remainRootFiles := removeAll f (remainRootFiles v) \<rparr>"] True
      by (auto simp: s)
  next
    case False
    then have "virtualFilesUpdatedNum (refreshSource host mods f v) = virtualFilesUpdatedNum v + 1"
      by (intro refreshSource_changed) auto
    with fold_refreshSource_num_mono [of "refreshSource host mods f v" host mods fs]
    have "virtualFilesUpdatedNum (fold (refreshSource host mods) (f # fs) v) \<noteq> 0" by simp
    with False show ?thesis by auto
  qed
qed

lemma addRootFile_should:
  "shouldUpdateTsProject (addRootFile host mods f v) = shouldUpdateTsProject v"
  by (simp add: addRootFile_def Let_def split: option.splits)

lemma fold_addRootFile_should:
  "shouldUpdateTsProject (fold (addRootFile host mods) fs v) = shouldUpdateTsProject v"
  by (induction fs arbitrary: v) (simp_all add: addRootFile_should)

lemma syncDocuments_should:
  "shouldUpdateTsProject (syncDocuments host mods c) = (documentLost host c \<or> documentsUnchanged host c)"
  by (auto simp: syncDocuments_def Let_def fold_addRootFile_should fold_refreshSource_should
        fold_refreshSource_num documentLost_def documentsUnchanged_def)

lemma refreshSource_ts: "sourceTsFileVersions (u_ctx (refreshSource host mods f v)) = sourceTsFileVersions (u_ctx v)"
  by (simp add: refreshSource_def Let_def split: option.splits)

lemma addRootFile_ts: "sourceTsFileVersions (u_ctx (addRootFile host mods f v)) = sourceTsFileVersions (u_ctx v)"
  by (simp add: addRootFile_def Let_def split: option.splits)

lemma fold_ts:
  assumes "\<And>x v. sourceTsFileVersions (u_ctx (body x v)) = sourceTsFileVersions (u_ctx v)"
  shows "sourceTsFileVersions (u_ctx (fold body xs v)) = sourceTsFileVersions (u_ctx v)"
  by (induction xs arbitrary: v) (simp_all add: assms)

lemma syncDocuments_ts:
  "sourceTsFileVersions (u_ctx (syncDocuments host mods c)) = sourceTsFileVersions c"
  by (simp add: syncDocuments_def Let_def fold_ts refreshSource_ts addRootFile_ts)

text \<open>The third loop sets the flag exactly when the host version of a recorded plain file
  differs from the record; otherwise it changes nothing.\<close>

lemma fold_refreshTsFile_should:
  "shouldUpdateTsProject (fold (refreshTsFile host) olds v)
     = (shouldUpdateTsProject v \<or> (\<exists>old \<in> set olds. h_getScriptVersion host (fst old) \<noteq> snd old))"
proof (induction olds arbitrary: v)
  case Nil
  then show ?case by simp
next
  case (Cons old olds)
  have "shouldUpdateTsProject (refreshTsFile host old v)
          = (shouldUpdateTsProject v \<or> h_getScriptVersion host (fst old) \<noteq> snd old)"
    by (auto simp: refreshTsFile_def Let_def)
  with Cons.IH [of "refreshTsFile host old v"] show ?case by auto
qed

lemma fold_refreshTsFile_same:
  assumes "\<forall>old \<in> set olds. h_getScriptVersion host (fst old) = snd old"
  shows "fold (refreshTsFile host) olds v = v"
  using assms by (induction olds arbitrary: v) (auto simp: refreshTsFile_def Let_def)

text \<open>The fourth loop sets the flag exactly when a remaining root file has no recorded
  version.\<close>

lemma addTsFile_should_mono:
  "shouldUpdateTsProject v \<Longrightarrow> shouldUpdateTsProject (addTsFile host f v)"
  by (simp add: addTsFile_def Let_def)

lemma fold_addTsFile_should_mono:
  "shouldUpdateTsProject v \<Longrightarrow> shouldUpdateTsProject (fold (addTsFile host) fs v)"
  by (induction fs arbitrary: v) (simp_all add: addTsFile_should_mono)

lemma fold_addTsFile_should:
  "shouldUpdateTsProject (fold (addTsFile host) fs v)
     = (shouldUpdateTsProject v
        \<or> (\<exists>f \<in> set fs. f \<notin> fst ` set (sourceTsFileVersions (u_ctx v))))"
proof (induction fs arbitrary: v)
  case Nil
  then show ?case by simp
next
  case (Cons f fs)
  show ?case
  proof (cases "f \<in> fst ` set (sourceTsFileVersions (u_ctx v))")
    case True
    then have "addTsFile host f v = v" by (simp add: addTsFile_def Let_def)
    with Cons.IH [of v] True show ?thesis by auto
  next
    case False
    then have "shouldUpdateTsProject (addTsFile host f v)" by (simp add: addTsFile_def Let_def)
    then have "shouldUpdateTsProject (fold (addTsFile host) fs (addTsFile host f v))"
      by (rule fold_addTsFile_should_mono)
    with False show ?thesis by auto
  qed
qed

lemma refreshTsFile_remain: "remainRootFiles (refreshTsFile host old v) = remainRootFiles v"
  by (simp add: refreshTsFile_def Let_def)

lemma fold_refreshTsFile_remain: "remainRootFiles (fold (refreshTsFile host) olds v) = remainRootFiles v"
  by (induction olds arbitrary: v) (simp_all add: refreshTsFile_remain)

lemma syncPlainFiles_should:
  "shouldUpdateTsProject (syncPlainFiles host (syncDocuments host mods c))
     = (documentLost host c \<or> documentsUnchanged host c
        \<or> plainFileChanged host c \<or> plainFileAdded host mods c)"
proof (cases "plainFileChanged host c")
  case True
  then have "shouldUpdateTsProject (fold (refreshTsFile host) (sourceTsFileVersions c) (syncDocuments host mods c))"
    by (simp add: fold_refreshTsFile_should plainFileChanged_def)
  then show ?thesis using True
    by (simp add: syncPlainFiles_def Let_def syncDocuments_ts fold_addTsFile_should_mono)
next
  case False
  then have same: "fold (refreshTsFile host) (sourceTsFileVersions c) (syncDocuments host mods c)
                     = syncDocuments host mods c"
    by (intro fold_refreshTsFile_same) (auto simp: plainFileChanged_def)
  show ?thesis using False
    by (simp add: syncPlainFiles_def Let_def syncDocuments_ts same fold_addTsFile_should
          syncDocuments_should plainFileAdded_def)
qed


lemma embeddedChanged_cong:
  "virtualFileVersions c = virtualFileVersions c' \<Longrightarrow> embeddedChanged c = embeddedChanged c'"
  by (rule ext) (simp add: embeddedChanged_def)

lemma anyEmbeddedChanged_cong:
  "virtualFiles c = virtualFiles c' \<Longrightarrow> virtualFileVersions c = virtualFileVersions c'
     \<Longrightarrow> anyEmbeddedChanged c = anyEmbeddedChanged c'"
  by (simp add: anyEmbeddedChanged_def embeddedChanged_cong [of c c'])

lemma refreshTsFile_frame:
  "virtualFiles (u_ctx (refreshTsFile host old v)) = virtualFiles (u_ctx v)
   \<and> virtualFileVersions (u_ctx (refreshTsFile host old v)) = virtualFileVersions (u_ctx v)"
  by (simp add: refreshTsFile_def Let_def)

lemma addTsFile_frame:
  "virtualFiles (u_ctx (addTsFile host f v)) = virtualFiles (u_ctx v)
   \<and> virtualFileVersions (u_ctx (addTsFile host f v)) = virtualFileVersions (u_ctx v)"
  by (simp add: addTsFile_def Let_def)

lemma fold_frame:
  assumes "\<And>x v. virtualFiles (u_ctx (body x v)) = virtualFiles (u_ctx v)
                 \<and> virtualFileVersions (u_ctx (body x v)) = virtualFileVersions (u_ctx v)"
  shows "virtualFiles (u_ctx (fold body xs v)) = virtualFiles (u_ctx v)
         \<and> virtualFileVersions (u_ctx (fold body xs v)) = virtualFileVersions (u_ctx v)"
  by (induction xs arbitrary: v) (simp_all add: assms)

lemma syncPlainFiles_unitChanged:
  "anyEmbeddedChanged (u_ctx (syncPlainFiles host v)) = anyEmbeddedChanged (u_ctx v)"
proof -
  have "virtualFiles (u_ctx (syncPlainFiles host v)) = virtualFiles (u_ctx v)
        \<and> virtualFileVersions (u_ctx (syncPlainFiles host v)) = virtualFileVersions (u_ctx v)"
    by (simp add: syncPlainFiles_def Let_def fold_frame refreshTsFile_frame addTsFile_frame)
  then show ?thesis by (intro anyEmbeddedChanged_cong) simp_all
qed

text \<open>The value of \<open>lastProjectVersion\<close> plays no part in the loops.\<close>

lemma refreshSource_last:
  "refreshSource host mods f (v\<lparr> u_ctx := (u_ctx v)\<lparr> lastProjectVersion := x \<rparr> \<rparr>)
     = (let w = refreshSource host mods f v in w\<lparr> u_ctx := (u_ctx w)\<lparr> lastProjectVersion := x \<rparr> \<rparr>)"
  by (simp add: refreshSource_def Let_def split: option.splits)

lemma addRootFile_last:
  "addRootFile host mods f (v\<lparr> u_ctx := (u_ctx v)\<lparr> lastProjectVersion := x \<rparr> \<rparr>)
     = (let w = addRootFile host mods f v in w\<lparr> u_ctx := (u_ctx w)\<lparr> lastProjectVersion := x \<rparr> \<rparr>)"
  by (simp add: addRootFile_def Let_def split: option.splits)

lemma fold_last:
  assumes "\<And>f v. body f (v\<lparr> u_ctx := (u_ctx v)\<lparr> lastProjectVersion := x \<rparr> \<rparr>)
             = (let w = body f v in w\<lparr> u_ctx := (u_ctx w)\<lparr> lastProjectVersion := x \<rparr> \<rparr>)"
  shows "fold body fs (v\<lparr> u_ctx := (u_ctx v)\<lparr> lastProjectVersion := x \<rparr> \<rparr>)
           = (let w = fold body fs v in w\<lparr> u_ctx := (u_ctx w)\<lparr> lastProjectVersion := x \<rparr> \<rparr>)"
  by (induction fs arbitrary: v) (simp_all add: assms Let_def)

lemma syncDocuments_last:
  "syncDocuments host mods (c\<lparr> lastProjectVersion := x \<rparr>)
     = (let w = syncDocuments host mods c in w\<lparr> u_ctx := (u_ctx w)\<lparr> lastProjectVersion := x \<rparr> \<rparr>)"
proof -
  define L where "L = (\<lambda>v :: UpdateVars. v\<lparr> u_ctx := (u_ctx v)\<lparr> lastProjectVersion := x \<rparr> \<rparr>)"
  define c' where "c' = c\<lparr> lastProjectVersion := x \<rparr>"
  define v0 where "v0 = \<lparr> u_ctx = c, remainRootFiles = new_Set (h_getScriptFileNames host),
                 shouldUpdateTsProject = False, virtualFilesUpdatedNum = 0 \<rparr>"
  define v1 where "v1 = fold (refreshSource host mods) (map src_fileName (allSources (virtualFiles c))) v0"
  define v2 where "v2 = (if virtualFilesUpdatedNum v1 = 0 then v1\<lparr> shouldUpdateTsProject := True \<rparr> else v1)"
  define v3 where "v3 = fold (addRootFile host mods) (remainRootFiles v2) v2"
  define w0 where "w0 = \<lparr> u_ctx = c', remainRootFiles = new_Set (h_getScriptFileNames host),
                 shouldUpdateTsProject = False, virtualFilesUpdatedNum = 0 \<rparr>"
  define w1 where "w1 = fold (refreshSource host mods) (map src_fileName (allSources (virtualFiles c'))) w0"
  define w2 where "w2 = (if virtualFilesUpdatedNum w1 = 0 then w1\<lparr> shouldUpdateTsProject := True \<rparr> else w1)"
  define w3 where "w3 = fold (addRootFile host mods) (remainRootFiles w2) w2"
  have d: "syncDocuments host mods c = v3"
    unfolding syncDocuments_def Let_def v3_def v2_def v1_def v0_def ..
  have d': "syncDocuments host mods c' = w3"
    unfolding syncDocuments_def Let_def w3_def w2_def w1_def w0_def ..
  have 0: "w0 = L v0" by (simp add: w0_def v0_def L_def c'_def)
  have n: "virtualFiles c' = virtualFiles c" by (simp add: c'_def)
  have 1: "w1 = L v1"
    unfolding w1_def v1_def 0 n L_def
    using fold_last [of "refreshSource host mods" x _ v0, OF refreshSource_last]
    by (simp add: Let_def)
  have 2: "w2 = L v2" by (simp add: w2_def v2_def 1 L_def)
  have r: "remainRootFiles (L v2) = remainRootFiles v2" by (simp add: L_def)
  have 3: "w3 = L v3"
    unfolding w3_def v3_def 2 r unfolding L_def
    using fold_last [of "addRootFile host mods" x _ v2, OF addRootFile_last]
    by (simp add: Let_def)
  show ?thesis using d d' 3 by (simp add: L_def c'_def Let_def)
qed

lemma conditions_last:
  "documentLost host (c\<lparr> lastProjectVersion := x \<rparr>) = documentLost host c"
  "documentsUnchanged host (c\<lparr> lastProjectVersion := x \<rparr>) = documentsUnchanged host c"
  "plainFileChanged host (c\<lparr> lastProjectVersion := x \<rparr>) = plainFileChanged host c"
  "plainFileAdded host mods (c\<lparr> lastProjectVersion := x \<rparr>) = plainFileAdded host mods c"
  by (simp_all add: documentLost_def documentsUnchanged_def plainFileChanged_def plainFileAdded_def
        syncDocuments_last Let_def)

lemma unitChanged_last:
  "unitChanged host mods (c\<lparr> lastProjectVersion := x \<rparr>) = unitChanged host mods c"
  unfolding unitChanged_def syncDocuments_last Let_def
  by (rule anyEmbeddedChanged_cong) simp_all

lemma update_counter_steps:
  "tsProjectVersion (update host mods c) = tsProjectVersion c
   \<or> tsProjectVersion (update host mods c) = tsProjectVersion c + 1"
  by (simp add: update_def Let_def syncDocuments_counter syncPlainFiles_counter)

lemma update_skipped:
  assumes "h_getProjectVersion host \<noteq> None" "h_getProjectVersion host = lastProjectVersion c"
  shows "update host mods c = c"
  using assms by (simp add: update_def Let_def)

lemma update_runs:
  assumes run: "h_getProjectVersion host = None \<or> h_getProjectVersion host \<noteq> lastProjectVersion c"
  shows "(tsProjectVersion (update host mods c) = tsProjectVersion c + 1)
           = (documentLost host c \<or> documentsUnchanged host c \<or> plainFileChanged host c
              \<or> plainFileAdded host mods c \<or> unitChanged host mods c)"
proof -
  define c1 where "c1 = c\<lparr> lastProjectVersion := h_getProjectVersion host \<rparr>"
  define v5 where "v5 = syncPlainFiles host (syncDocuments host mods c1)"
  have s: "shouldUpdateTsProject v5
             = (documentLost host c \<or> documentsUnchanged host c \<or> plainFileChanged host c
                \<or> plainFileAdded host mods c)"
    unfolding v5_def syncPlainFiles_should c1_def conditions_last ..
  have e: "anyEmbeddedChanged (u_ctx v5) = unitChanged host mods c"
    unfolding v5_def syncPlainFiles_unitChanged c1_def
    by (simp add: unitChanged_def [symmetric] unitChanged_last)
  have t: "tsProjectVersion (u_ctx v5) = tsProjectVersion c"
    by (simp add: v5_def syncPlainFiles_counter syncDocuments_counter c1_def)
  have "tsProjectVersion (update host mods c)
          = (if shouldUpdateTsProject v5 \<or> anyEmbeddedChanged (u_ctx v5)
             then tsProjectVersion c + 1 else tsProjectVersion c)"
    using run t unfolding update_def Let_def v5_def c1_def by auto
  with s e show ?thesis by auto
qed

text \<open>
  Claim C1, as the code has it. In one update cycle the Project Version counter either
  stays or rises by exactly one. A cycle in which the host reports a defined project
  version equal to the one last observed is skipped and leaves the whole context as it
  was. A cycle that runs raises the counter exactly when the host has lost the snapshot
  of a tracked source document; or every tracked source document is still there with
  its recorded host version (no document was deleted or refreshed: the engine-visible
  set is then taken as changed by definition, whether or not anything engine-visible
  differs); or the host version of a recorded plain file differs from the record; or a
  root file left over after the documents are registered has no recorded version; or an
  engine-visible unit has another snapshot than the one recorded with its Version
  Token.
\<close>

theorem update_projectVersion:
  "(tsProjectVersion (update host mods c) = tsProjectVersion c
      \<or> tsProjectVersion (update host mods c) = tsProjectVersion c + 1)
   \<and> (h_getProjectVersion host \<noteq> None \<and> h_getProjectVersion host = lastProjectVersion c
        \<longrightarrow> update host mods c = c)
   \<and> (h_getProjectVersion host = None \<or> h_getProjectVersion host \<noteq> lastProjectVersion c
        \<longrightarrow> (tsProjectVersion (update host mods c) = tsProjectVersion c + 1)
            = (documentLost host c \<or> documentsUnchanged host c \<or> plainFileChanged host c
               \<or> plainFileAdded host mods c \<or> unitChanged host mods c))"
  using update_counter_steps [of host mods c] update_skipped [of host c mods]
    update_runs [of host c mods]
  by blast

theorem update_projectVersion_witness:
  "update exTsHost1 [] exCycle1 = exCycle1
   \<and> tsProjectVersion (update exTsHost2 [] exCycle1) = tsProjectVersion exCycle1 + 1
   \<and> map src_fileName (allSources (virtualFiles exSettled)) = [''/a.vue'']
   \<and> tsProjectVersion (update exHost [exModule] exSettled) = tsProjectVersion exSettled + 1
   \<and> tsProjectVersion (update exHostEdited [exModule] exSettled) = tsProjectVersion exSettled"
proof -
  have a: "h_getProjectVersion exTsHost1 \<noteq> None
           \<and> h_getProjectVersion exTsHost1 = lastProjectVersion exCycle1"
    by code_simp
  have b: "(h_getProjectVersion exTsHost2 = None
              \<or> h_getProjectVersion exTsHost2 \<noteq> lastProjectVersion exCycle1)
           \<and> documentsUnchanged exTsHost2 exCycle1"
    by code_simp
  have c: "(h_getProjectVersion exHost = None
              \<or> h_getProjectVersion exHost \<noteq> lastProjectVersion exSettled)
           \<and> documentsUnchanged exHost exSettled"
    by code_simp
  have d: "map src_fileName (allSources (virtualFiles exSettled)) = [''/a.vue'']"
    by code_simp
  have e: "(h_getProjectVersion exHostEdited = None
              \<or> h_getProjectVersion exHostEdited \<noteq> lastProjectVersion exSettled)
           \<and> \<not> documentLost exHostEdited exSettled
           \<and> \<not> documentsUnchanged exHostEdited exSettled
           \<and> \<not> plainFileChanged exHostEdited exSettled
           \<and> \<not> plainFileAdded exHostEdited [exModule] exSettled
           \<and> \<not> unitChanged exHostEdited [exModule] exSettled"
    by code_simp
  from update_projectVersion [of exTsHost1 "[]" exCycle1] a
  have 1: "update exTsHost1 [] exCycle1 = exCycle1" by blast
  from update_projectVersion [of exTsHost2 "[]" exCycle1] b
  have 2: "tsProjectVersion (update exTsHost2 [] exCycle1) = tsProjectVersion exCycle1 + 1" by blast
  from update_projectVersion [of exHost "[exModule]" exSettled] c
  have 3: "tsProjectVersion (update exHost [exModule] exSettled) = tsProjectVersion exSettled + 1"
    by blast
  from update_projectVersion [of exHostEdited "[exModule]" exSettled] e
  have 4: "tsProjectVersion (update exHostEdited [exModule] exSettled) = tsProjectVersion exSettled"
    by blast
  from 1 2 d 3 4 show ?thesis by blast
qed

text \<open>
  The claim as stated fails: between the two polls of \<open>exTsHost1\<close> and \<open>exTsHost2\<close> the
  engine-visible file names and their version strings are the same, and the counter
  rises all the same.
\<close>

theorem update_noop_cycle_counterexample:
  "getScriptFileNames exTsHost1 exCycle1 = [''/b.ts'']
   \<and> getScriptFileNames exTsHost2 exCycle2 = [''/b.ts'']
   \<and> fst (getScriptVersion exTsHost1 exCycle1 ''/b.ts'') = ''1''
   \<and> fst (getScriptVersion exTsHost2 exCycle2 ''/b.ts'') = ''1''
   \<and> sourceTsFileVersions exCycle2 = sourceTsFileVersions exCycle1
   \<and> virtualFiles exCycle2 = virtualFiles exCycle1
   \<and> tsProjectVersion exCycle1 = 1
   \<and> tsProjectVersion exCycle2 = 2"
  by code_simp

section \<open>Diagnostic translation\<close>

lemma onMapping_range:
  "d_start (fst (onMapping host mods c d fileName s e docText)) = Some s
   \<and> d_length (fst (onMapping host mods c d fileName s e docText)) = Some (e - s)"
  by (simp add: onMapping.simps Let_def)

lemma findRange_Some:
  assumes "findRange smap s l = Some se"
  shows "\<exists>st \<in> set (toSourceOffsets smap s False). \<exists>en \<in> set (toSourceOffsets smap (s + l) True).
           cap_diagnostic (range_data (snd st)) \<and> cap_diagnostic (range_data (snd en))
           \<and> fst se = fst st \<and> snd se = fst en"
proof -
  from assms obtain st en where
    a: "firstDiagnostic (toSourceOffsets smap s False) = Some st" and
    b: "firstDiagnostic (toSourceOffsets smap (s + l) True) = Some en" and
    c: "se = (fst st, fst en)"
    by (auto simp: findRange_def split: option.splits)
  from a have "st \<in> set (toSourceOffsets smap s False) \<and> cap_diagnostic (range_data (snd st))"
    by (auto simp: firstDiagnostic_def find_Some_iff)
  moreover from b have "en \<in> set (toSourceOffsets smap (s + l) True) \<and> cap_diagnostic (range_data (snd en))"
    by (auto simp: firstDiagnostic_def find_Some_iff)
  ultimately show ?thesis using c by auto
qed

lemma overMaps_origin:
  assumes "x \<in> set (fst (overMaps host mods c d source ms))"
  shows "\<exists>nm \<in> set ms. fst nm = src_fileName source \<and>
           (\<exists>se. findRange (snd nm) (the (d_start d)) (the (d_length d)) = Some se
                 \<and> d_start x = Some (fst se) \<and> d_length x = Some (snd se - fst se))"
  using assms
proof (induction ms arbitrary: c)
  case Nil
  then show ?case by simp
next
  case (Cons m ms)
  show ?case
  proof (cases "fst m \<noteq> src_fileName source")
    case True
    with Cons show ?thesis by auto
  next
    case same: False
    show ?thesis
    proof (cases "findRange (snd m) (the (d_start d)) (the (d_length d))")
      case None
      with Cons same show ?thesis by auto
    next
      case (Some se)
      with Cons.prems same
      have "x = fst (onMapping host mods c d (src_fileName source) (fst se) (snd se)
                       (Some (snap_text (src_snapshot source))))
            \<or> x \<in> set (fst (overMaps host mods
                   (snd (onMapping host mods c d (src_fileName source) (fst se) (snd se)
                       (Some (snap_text (src_snapshot source))))) d source ms))"
        by (auto simp: Let_def)
      then show ?thesis
      proof
        assume "x = fst (onMapping host mods c d (src_fileName source) (fst se) (snd se)
                       (Some (snap_text (src_snapshot source))))"
        with Some same onMapping_range show ?thesis by auto
      next
        assume "x \<in> set (fst (overMaps host mods
                   (snd (onMapping host mods c d (src_fileName source) (fst se) (snd se)
                       (Some (snap_text (src_snapshot source))))) d source ms))"
        from Cons.IH [OF this] show ?thesis by auto
      qed
    qed
  qed
qed

lemma overMaps_defined:
  assumes "x \<in> set (fst (overMaps host mods c d source ms))"
  shows "d_start x \<noteq> None \<and> d_length x \<noteq> None"
  using overMaps_origin [OF assms] by auto

lemma transformDiagnostic_defined:
  assumes "x \<in> set (fst (transformDiagnostic host mods c d))" "d_file x \<noteq> None"
  shows "d_start x \<noteq> None \<and> d_length x \<noteq> None"
  using assms
  by (auto simp: transformDiagnostic.simps Let_def onMapping_range
        split: if_splits option.splits prod.splits dest: overMaps_defined)

lemma transformDiagnostics_defined:
  assumes "x \<in> set (fst (transformDiagnostics host mods c ds))" "d_file x \<noteq> None"
  shows "d_start x \<noteq> None \<and> d_length x \<noteq> None"
  using assms
proof (induction ds arbitrary: c)
  case Nil
  then show ?case by simp
next
  case (Cons d ds)
  then show ?case using transformDiagnostic_defined by (auto simp: Let_def)
qed

lemma transformDiagnostics_dropped:
  assumes "d_file d \<noteq> None" "d_start d = None \<or> d_length d = None"
  shows "transformDiagnostics host mods c (d # ds) = transformDiagnostics host mods c ds"
  using assms by (auto simp: transformDiagnostic.simps Let_def)

lemma transformDiagnostics_passed:
  assumes "d_file d = None"
  shows "transformDiagnostics host mods c (d # ds) =
           (d # fst (transformDiagnostics host mods c ds), snd (transformDiagnostics host mods c ds))"
  using assms by (auto simp: transformDiagnostic.simps Let_def)

lemma transformDiagnostic_resolved:
  assumes "d_file d = Some file" "d_start d = Some s" "d_length d = Some l"
      and "vfs_getVirtualFile host mods c (sf_fileName file) = ((Some virtualFile, Some source), c1)"
      and "lsh_fileExists host mods c1 (src_fileName source) = (e, c2)"
      and "vfs_getMaps host mods c2 virtualFile = (ms, c3)"
  shows "transformDiagnostic host mods c d =
           (if e = Some False then ([], c2) else overMaps host mods c3 d source ms)"
  using assms by (simp add: transformDiagnostic.simps Let_def)

text \<open>The output for a list is the concatenation of the outputs for its parts, each
  translated in the context that the part before it leaves.\<close>

lemma transformDiagnostics_append:
  "transformDiagnostics host mods c (xs @ ys) =
     (fst (transformDiagnostics host mods c xs)
        @ fst (transformDiagnostics host mods (snd (transformDiagnostics host mods c xs)) ys),
      snd (transformDiagnostics host mods (snd (transformDiagnostics host mods c xs)) ys))"
  by (induction xs arbitrary: c) (simp_all add: Let_def)

text \<open>
  Claim C2. Take a diagnostic with a file, a start and a length whose file resolves to a
  generated unit and its owning document, and the maps the store then lists for the unit.
  Every diagnostic that the translation puts out for it lies at source offsets obtained
  from one of those maps whose source path is the owning document: its start is a
  match of the diagnostic's start that carries the diagnostic capability, and its
  length runs to a match of the diagnostic's end (end-inclusive variant) that carries
  it too. When no map of the owning document has such matches for both, the output for
  the diagnostic is empty. The context \<open>c\<close> is any context, so this holds for the
  diagnostic wherever it stands in a list (\<open>transformDiagnostics_append\<close>).
\<close>

theorem transformDiagnostics_unmapped_dropped:
  assumes hfile: "d_file d = Some file" and hstart: "d_start d = Some s" and hlen: "d_length d = Some l"
      and resolved: "vfs_getVirtualFile host mods c (sf_fileName file)
                       = ((Some virtualFile, Some source), c1)"
      and probed: "lsh_fileExists host mods c1 (src_fileName source) = (e, c2)"
      and listed: "vfs_getMaps host mods c2 virtualFile = (ms, c3)"
  shows "(\<forall>x \<in> set (fst (transformDiagnostics host mods c [d])).
            \<exists>nm \<in> set ms. fst nm = src_fileName source \<and>
              (\<exists>st \<in> set (toSourceOffsets (snd nm) s False).
               \<exists>en \<in> set (toSourceOffsets (snd nm) (s + l) True).
                 cap_diagnostic (range_data (snd st)) \<and> cap_diagnostic (range_data (snd en))
                 \<and> d_start x = Some (fst st) \<and> d_length x = Some (fst en - fst st)))
         \<and> ((\<forall>nm \<in> set ms. fst nm = src_fileName source \<longrightarrow>
                (\<forall>st \<in> set (toSourceOffsets (snd nm) s False). \<not> cap_diagnostic (range_data (snd st)))
                \<or> (\<forall>en \<in> set (toSourceOffsets (snd nm) (s + l) True).
                      \<not> cap_diagnostic (range_data (snd en))))
             \<longrightarrow> fst (transformDiagnostics host mods c [d]) = [])"
proof -
  let ?out = "fst (transformDiagnostics host mods c [d])"
  have o: "?out = (if e = Some False then [] else fst (overMaps host mods c3 d source ms))"
    by (simp add: Let_def transformDiagnostic_resolved [OF hfile hstart hlen resolved probed listed])
  have 1: "\<exists>nm \<in> set ms. fst nm = src_fileName source \<and>
              (\<exists>st \<in> set (toSourceOffsets (snd nm) s False).
               \<exists>en \<in> set (toSourceOffsets (snd nm) (s + l) True).
                 cap_diagnostic (range_data (snd st)) \<and> cap_diagnostic (range_data (snd en))
                 \<and> d_start x = Some (fst st) \<and> d_length x = Some (fst en - fst st))"
    if "x \<in> set ?out" for x
  proof -
    from that o have "x \<in> set (fst (overMaps host mods c3 d source ms))"
      by (simp split: if_splits)
    from overMaps_origin [OF this] obtain nm se where
      nm: "nm \<in> set ms" "fst nm = src_fileName source" and
      se: "findRange (snd nm) s l = Some se" and
      x: "d_start x = Some (fst se)" "d_length x = Some (snd se - fst se)"
      by (auto simp: hstart hlen)
    from findRange_Some [OF se] nm x show ?thesis by force
  qed
  have 2: "?out = []"
    if none: "\<forall>nm \<in> set ms. fst nm = src_fileName source \<longrightarrow>
                (\<forall>st \<in> set (toSourceOffsets (snd nm) s False). \<not> cap_diagnostic (range_data (snd st)))
                \<or> (\<forall>en \<in> set (toSourceOffsets (snd nm) (s + l) True).
                      \<not> cap_diagnostic (range_data (snd en)))"
  proof (rule ccontr)
    assume "?out \<noteq> []"
    then obtain x where "x \<in> set ?out" by (cases ?out) auto
    from 1 [OF this] none show False by blast
  qed
  from 1 2 show ?thesis by blast
qed

theorem transformDiagnostics_unmapped_dropped_witness:
  "fst (transformDiagnostics exHost [exModule] initialCtx [exDiagUnmapped]) = []
   \<and> map d_start (fst (transformDiagnostics exHost [exModule] initialCtx [exDiagMapped])) = [Some 12]
   \<and> map d_length (fst (transformDiagnostics exHost [exModule] initialCtx [exDiagMapped])) = [Some 1]"
proof -
  define virtualFile where "virtualFile = the (fst (getVirtualFile exStore ''/a.vue.ts''))"
  define source where "source = the (snd (getVirtualFile exStore ''/a.vue.ts''))"
  define c1 where "c1 = snd (vfs_getVirtualFile exHost [exModule] initialCtx (sf_fileName exGenerated))"
  define e where "e = fst (lsh_fileExists exHost [exModule] c1 (src_fileName source))"
  define c2 where "c2 = snd (lsh_fileExists exHost [exModule] c1 (src_fileName source))"
  define c3 where "c3 = snd (vfs_getMaps exHost [exModule] c2 virtualFile)"
  have "fst (vfs_getVirtualFile exHost [exModule] initialCtx (sf_fileName exGenerated))
          = (Some (the (fst (getVirtualFile exStore ''/a.vue.ts''))),
             Some (the (snd (getVirtualFile exStore ''/a.vue.ts''))))"
    by code_simp
  then have resolved: "vfs_getVirtualFile exHost [exModule] initialCtx (sf_fileName exGenerated)
                         = ((Some virtualFile, Some source), c1)"
    by (simp add: virtualFile_def source_def c1_def prod_eq_iff)
  have probed: "lsh_fileExists exHost [exModule] c1 (src_fileName source) = (e, c2)"
    by (simp add: e_def c2_def)
  have "fst (vfs_getMaps exHost [exModule]
               (snd (lsh_fileExists exHost [exModule]
                      (snd (vfs_getVirtualFile exHost [exModule] initialCtx (sf_fileName exGenerated)))
                      (src_fileName (the (snd (getVirtualFile exStore ''/a.vue.ts''))))))
               (the (fst (getVirtualFile exStore ''/a.vue.ts''))))
          = [(''/a.vue'', exRanges)]"
    by code_simp
  then have listed: "vfs_getMaps exHost [exModule] c2 virtualFile = ([(''/a.vue'', exRanges)], c3)"
    by (simp add: c3_def c2_def c1_def virtualFile_def source_def prod_eq_iff)
  have none: "\<forall>nm \<in> set [(''/a.vue'', exRanges)]. fst nm = src_fileName source \<longrightarrow>
                (\<forall>st \<in> set (toSourceOffsets (snd nm) 20 False). \<not> cap_diagnostic (range_data (snd st)))
                \<or> (\<forall>en \<in> set (toSourceOffsets (snd nm) (20 + 1) True).
                      \<not> cap_diagnostic (range_data (snd en)))"
    by (simp add: toSourceOffsets_def exRanges_def matchOffset_def)
  have u: "d_file exDiagUnmapped = Some exGenerated" "d_start exDiagUnmapped = Some 20"
    "d_length exDiagUnmapped = Some 1"
    by (simp_all add: exDiagUnmapped_def)
  have m: "map d_start (fst (transformDiagnostics exHost [exModule] initialCtx [exDiagMapped])) = [Some 12]
           \<and> map d_length (fst (transformDiagnostics exHost [exModule] initialCtx [exDiagMapped])) = [Some 1]"
    by code_simp
  from transformDiagnostics_unmapped_dropped [OF u resolved probed listed] none m
  show ?thesis by blast
qed

text \<open>
  Claim C10. No diagnostic in the output of \<open>transformDiagnostics\<close> has a file without
  having a start and a length, whatever the input. A diagnostic of the input that has a
  file but lacks a start or a length is dropped: the result, and the context left, are
  those of the input without it. A diagnostic without a file is passed on as it is.
\<close>

theorem transformDiagnostics_incomplete_dropped:
  "(\<forall>x \<in> set (fst (transformDiagnostics host mods c ds)).
      d_file x \<noteq> None \<longrightarrow> d_start x \<noteq> None \<and> d_length x \<noteq> None)
   \<and> (d_file d \<noteq> None \<and> (d_start d = None \<or> d_length d = None)
        \<longrightarrow> transformDiagnostics host mods c (d # ds) = transformDiagnostics host mods c ds)
   \<and> (d_file d = None
        \<longrightarrow> transformDiagnostics host mods c (d # ds)
            = (d # fst (transformDiagnostics host mods c ds), snd (transformDiagnostics host mods c ds)))"
  using transformDiagnostics_defined [of _ host mods c ds]
    transformDiagnostics_dropped [of d host mods c ds]
    transformDiagnostics_passed [of d host mods c ds]
  by blast

theorem transformDiagnostics_incomplete_dropped_witness:
  "transformDiagnostics exHost [exModule] exCtx [exDiagNoStart, exDiagGlobal] = ([exDiagGlobal], exCtx)
   \<and> d_file exDiagNoStart \<noteq> None \<and> d_start exDiagNoStart = None"
proof -
  have a: "d_file exDiagNoStart \<noteq> None \<and> (d_start exDiagNoStart = None \<or> d_length exDiagNoStart = None)"
    by (simp add: exDiagNoStart_def)
  have b: "d_file exDiagGlobal = None" by (simp add: exDiagGlobal_def)
  from transformDiagnostics_incomplete_dropped [of exHost "[exModule]" exCtx "[exDiagGlobal]" exDiagNoStart]
       transformDiagnostics_incomplete_dropped [of exHost "[exModule]" exCtx "[]" exDiagGlobal] a b
  show ?thesis by (simp add: exDiagNoStart_def)
qed

section \<open>Root file names\<close>

lemma getRootFileNames_stillExisting:
  "fst (getRootFileNames host mods c fs) = stillExisting host mods c fs"
  by (induction fs arbitrary: c) (simp_all add: stillExisting_def Let_def)

lemma getRootFileNames_subset:
  "set (fst (getRootFileNames host mods c fs)) \<subseteq> set fs"
  by (induction fs arbitrary: c) (auto simp: Let_def)

lemma getRootFileNames_probed:
  "f \<in> set (fst (getRootFileNames host mods c fs))
     \<Longrightarrow> \<exists>c'. fst (lsh_fileExists host mods c' f) = Some True"
  by (induction fs arbitrary: c) (auto simp: Let_def split: if_splits)

lemma getRootFileNames_blind:
  "h_fileExists host = None \<Longrightarrow> fst (getRootFileNames host mods c fs) = []"
  by (induction fs arbitrary: c) (auto simp: Let_def lsh_fileExists_def tsHost_fileExists_def)

text \<open>
  Claim C8. \<open>getRootFileNames\<close> returns, in their order, exactly those root file names of
  the underlying program for which the \<open>fileExists\<close> of the context's host view
  answers true when they are probed one after another. It returns no other name; a name
  for which \<open>fileExists\<close> answers true in no state of the context is not returned, and
  when the host view has no \<open>fileExists\<close> nothing is returned.
\<close>

theorem getRootFileNames_filtered:
  "fst (getRootFileNames host mods c fs) = stillExisting host mods c fs
   \<and> set (fst (getRootFileNames host mods c fs)) \<subseteq> set fs
   \<and> ((\<forall>c'. fst (lsh_fileExists host mods c' f) \<noteq> Some True)
        \<longrightarrow> f \<notin> set (fst (getRootFileNames host mods c fs)))
   \<and> (h_fileExists host = None \<longrightarrow> fst (getRootFileNames host mods c fs) = [])"
  using getRootFileNames_stillExisting [of host mods c fs] getRootFileNames_subset [of host mods c fs]
    getRootFileNames_probed [of f host mods c fs] getRootFileNames_blind [of host mods c fs]
  by blast

theorem getRootFileNames_filtered_witness:
  "fst (getRootFileNames exHost [exModule] initialCtx [''/a.vue.ts'', ''/gone.ts'', ''/b.ts''])
     = [''/a.vue.ts'', ''/b.ts'']
   \<and> stillExisting exHost [exModule] initialCtx [''/a.vue.ts'', ''/gone.ts'', ''/b.ts'']
     = [''/a.vue.ts'', ''/b.ts'']
   \<and> fst (getRootFileNames exHostBlind [exModule] initialCtx [''/a.vue.ts'', ''/gone.ts'', ''/b.ts'']) = []"
proof -
  have a: "stillExisting exHost [exModule] initialCtx [''/a.vue.ts'', ''/gone.ts'', ''/b.ts'']
             = [''/a.vue.ts'', ''/b.ts'']"
    by code_simp
  have b: "h_fileExists exHostBlind = None" by (simp add: exHostBlind_def)
  note names = getRootFileNames_filtered
    [of exHost "[exModule]" initialCtx "[''/a.vue.ts'', ''/gone.ts'', ''/b.ts'']"]
  note blind = getRootFileNames_filtered
    [of exHostBlind "[exModule]" initialCtx "[''/a.vue.ts'', ''/gone.ts'', ''/b.ts'']"]
  from names have r1:
    "fst (getRootFileNames exHost [exModule] initialCtx [''/a.vue.ts'', ''/gone.ts'', ''/b.ts''])
       = stillExisting exHost [exModule] initialCtx [''/a.vue.ts'', ''/gone.ts'', ''/b.ts'']"
    by (rule conjunct1)
  from blind b have r2:
    "fst (getRootFileNames exHostBlind [exModule] initialCtx [''/a.vue.ts'', ''/gone.ts'', ''/b.ts'']) = []"
    by blast
  show ?thesis unfolding r1 r2 a by (intro conjI refl)
qed

section \<open>Writing the generated files: proofs\<close>

lemma set_foldl_set_add: "set (foldl set_add acc xs) = set acc \<union> set xs"
  by (induction xs arbitrary: acc) auto

lemma set_new_Set: "set (new_Set xs) = set xs"
  by (simp add: new_Set_def set_foldl_set_add)

lemma writeLoop_written:
  assumes "w \<in> set (fst (writeLoop host mods c sourceFiles names))"
  shows "fst w \<in> set names \<and> fst w \<notin> set sourceFiles
         \<and> startsWith (fst w) (h_getCurrentDirectory host)
         \<and> (\<exists>c' snapshot. fst (lsh_getScriptSnapshot host mods c' (fst w)) = Some snapshot
                           \<and> snd w = snap_text snapshot)"
  using assms
proof (induction names arbitrary: c)
  case Nil
  then show ?case by simp
next
  case (Cons n names)
  show ?case
  proof (cases "startsWith n (h_getCurrentDirectory host) \<and> n \<notin> set sourceFiles")
    case False
    with Cons.prems have "w \<in> set (fst (writeLoop host mods c sourceFiles names))" by auto
    from Cons.IH [OF this] show ?thesis by auto
  next
    case True
    show ?thesis
    proof (cases "fst (lsh_getScriptSnapshot host mods c n)")
      case None
      with True Cons.prems
      have "w \<in> set (fst (writeLoop host mods (snd (lsh_getScriptSnapshot host mods c n)) sourceFiles names))"
        by (auto simp: Let_def)
      from Cons.IH [OF this] show ?thesis by auto
    next
      case (Some snapshot)
      with True Cons.prems
      have "w = (n, snap_text snapshot)
            \<or> w \<in> set (fst (writeLoop host mods (snd (lsh_getScriptSnapshot host mods c n)) sourceFiles names))"
        by (auto simp: Let_def)
      then show ?thesis
      proof
        assume "w = (n, snap_text snapshot)"
        with True Some show ?thesis by auto
      next
        assume "w \<in> set (fst (writeLoop host mods (snd (lsh_getScriptSnapshot host mods c n)) sourceFiles names))"
        from Cons.IH [OF this] show ?thesis by auto
      qed
    qed
  qed
qed

text \<open>
  Claim C9. Every file the handler writes has a path that is not among the host's
  script file names; the path is one of the file names of the derived host view, and
  the text written is the text of a snapshot that \<open>getScriptSnapshot\<close> returned for it.
  Without a project or a language service nothing is written.
\<close>

theorem writeVirtualFiles_skips_sources:
  "(\<forall>w \<in> set (fst (writeVirtualFiles host mods c)).
      fst w \<notin> set (h_getScriptFileNames host)
      \<and> fst w \<in> set (fst (lsh_getScriptFileNames host mods c))
      \<and> (\<exists>c' snapshot. fst (lsh_getScriptSnapshot host mods c' (fst w)) = Some snapshot
                        \<and> snd w = snap_text snapshot))
   \<and> onWriteVirtualFiles (Some (host, mods, c)) = fst (writeVirtualFiles host mods c)
   \<and> onWriteVirtualFiles None = []"
  using writeLoop_written [of _ host mods "snd (lsh_getScriptFileNames host mods c)"
          "new_Set (h_getScriptFileNames host)" "fst (lsh_getScriptFileNames host mods c)"]
  by (auto simp: writeVirtualFiles_def Let_def set_new_Set onWriteVirtualFiles_def)

theorem writeVirtualFiles_skips_sources_witness:
  "fst (writeVirtualFiles exHost [exModule] initialCtx) = [(''/a.vue.ts'', ''let a = 1'')]
   \<and> fst (lsh_getScriptFileNames exHost [exModule] initialCtx) = [''/a.vue.ts'', ''/b.ts'']
   \<and> ''/a.vue.ts'' \<notin> set (h_getScriptFileNames exHost)
   \<and> ''/b.ts'' \<in> set (h_getScriptFileNames exHost)"
proof -
  have a: "fst (writeVirtualFiles exHost [exModule] initialCtx) = [(''/a.vue.ts'', ''let a = 1'')]"
    by code_simp
  have b: "fst (lsh_getScriptFileNames exHost [exModule] initialCtx) = [''/a.vue.ts'', ''/b.ts'']"
    by code_simp
  have c: "''/b.ts'' \<in> set (h_getScriptFileNames exHost)" by (simp add: exHost_def)
  from writeVirtualFiles_skips_sources [of exHost "[exModule]" initialCtx] a
  have "''/a.vue.ts'' \<notin> set (h_getScriptFileNames exHost)" by simp
  with a b c show ?thesis by blast
qed

section \<open>Ordering of configurations\<close>

lemma split_length: "length (split s sep) = Suc (length (filter (\<lambda>c. c = sep) s))"
  by (induction s) (auto split: list.splits)

text \<open>
  Claim C5. The comparator is negative, so that \<open>a\<close> is ordered strictly before \<open>b\<close>,
  exactly when the directory of \<open>a\<close> holds the file and that of \<open>b\<close> does not; or the two
  agree there and \<open>a\<close> has more path segments than \<open>b\<close>; or they agree in both and the base
  name of \<open>a\<close> is \<^verbatim>\<open>tsconfig.json\<close> while that of \<open>b\<close> is not.
\<close>

theorem sortTsConfigs_order:
  "(sortTsConfigs path isFileInDir file a b < 0) =
     ((isFileInDir file (path_dirname path a) \<and> \<not> isFileInDir file (path_dirname path b))
      \<or> (isFileInDir file (path_dirname path a) = isFileInDir file (path_dirname path b)
          \<and> length (split b CHR ''/'') < length (split a CHR ''/''))
      \<or> (isFileInDir file (path_dirname path a) = isFileInDir file (path_dirname path b)
          \<and> length (split a CHR ''/'') = length (split b CHR ''/'')
          \<and> path_basename path a = ''tsconfig.json''
          \<and> path_basename path b \<noteq> ''tsconfig.json''))"
  by (auto simp: sortTsConfigs_def Let_def)

theorem sortTsConfigs_order_witness:
  "sortTsConfigs exPosix exInDir ''/p/src/a.vue'' ''/p/tsconfig.json'' ''/q/tsconfig.json'' < 0
   \<and> sortTsConfigs exPosix exInDir ''/p/src/a.vue'' ''/p/src/tsconfig.json'' ''/p/tsconfig.json'' < 0
   \<and> sortTsConfigs exPosix exInDir ''/p/src/a.vue'' ''/p/tsconfig.json'' ''/p/jsconfig.json'' < 0
   \<and> \<not> sortTsConfigs exPosix exInDir ''/p/src/a.vue'' ''/p/jsconfig.json'' ''/p/tsconfig.json'' < 0"
proof -
  have a: "exInDir ''/p/src/a.vue'' (path_dirname exPosix ''/p/tsconfig.json'')
           \<and> \<not> exInDir ''/p/src/a.vue'' (path_dirname exPosix ''/q/tsconfig.json'')"
    by code_simp
  have b: "exInDir ''/p/src/a.vue'' (path_dirname exPosix ''/p/src/tsconfig.json'')
           \<and> length (split ''/p/tsconfig.json'' CHR ''/'') < length (split ''/p/src/tsconfig.json'' CHR ''/'')"
    by code_simp
  have c: "exInDir ''/p/src/a.vue'' (path_dirname exPosix ''/p/jsconfig.json'')
           \<and> length (split ''/p/tsconfig.json'' CHR ''/'') = length (split ''/p/jsconfig.json'' CHR ''/'')
           \<and> path_basename exPosix ''/p/tsconfig.json'' = ''tsconfig.json''
           \<and> path_basename exPosix ''/p/jsconfig.json'' \<noteq> ''tsconfig.json''"
    by code_simp
  from sortTsConfigs_order [of exPosix exInDir "''/p/src/a.vue''" "''/p/tsconfig.json''" "''/q/tsconfig.json''"]
       a
  have 1: "sortTsConfigs exPosix exInDir ''/p/src/a.vue'' ''/p/tsconfig.json'' ''/q/tsconfig.json'' < 0"
    by blast
  from sortTsConfigs_order [of exPosix exInDir "''/p/src/a.vue''" "''/p/src/tsconfig.json''" "''/p/tsconfig.json''"]
       a b
  have 2: "sortTsConfigs exPosix exInDir ''/p/src/a.vue'' ''/p/src/tsconfig.json'' ''/p/tsconfig.json'' < 0"
    by blast
  from sortTsConfigs_order [of exPosix exInDir "''/p/src/a.vue''" "''/p/tsconfig.json''" "''/p/jsconfig.json''"]
       a c
  have 3: "sortTsConfigs exPosix exInDir ''/p/src/a.vue'' ''/p/tsconfig.json'' ''/p/jsconfig.json'' < 0"
    by blast
  from sortTsConfigs_order [of exPosix exInDir "''/p/src/a.vue''" "''/p/jsconfig.json''" "''/p/tsconfig.json''"]
       a c
  have 4: "\<not> sortTsConfigs exPosix exInDir ''/p/src/a.vue'' ''/p/jsconfig.json'' ''/p/tsconfig.json'' < 0"
    by auto
  from 1 2 3 4 show ?thesis by blast
qed

section \<open>Reference chains\<close>

text \<open>
  Where no configuration references itself, every chain is free of repetitions and is
  made of the configurations on the way and of parsable ones.
\<close>

lemma getReferencesChains_distinct:
  assumes "\<forall>p pcl. map_of configs p = Some pcl \<longrightarrow>
             (\<forall>r \<in> set (refsOf pcl). referencePath path sys r \<noteq> p)"
      and "\<forall>r \<in> set (refsOf parsedCommandLine). referencePath path sys r \<noteq> tsConfig"
      and "distinct (before @ [tsConfig])"
      and "chain \<in> set (getReferencesChains path sys configs parsedCommandLine tsConfig before)"
  shows "distinct chain \<and> set chain \<subseteq> insert tsConfig (set before) \<union> set (map fst configs)"
  using assms
proof (induction path sys configs parsedCommandLine tsConfig before arbitrary: chain
       rule: getReferencesChains.induct)
  case (1 path sys configs parsedCommandLine tsConfig before)
  show ?case
  proof (cases "projectReferences parsedCommandLine \<noteq> None \<and> the (projectReferences parsedCommandLine) \<noteq> []")
    case False
    with "1.prems"(4) have "chain = before @ [tsConfig]"
      by (subst (asm) getReferencesChains.simps) auto
    with "1.prems"(3) show ?thesis by auto
  next
    case True
    with "1.prems"(4) obtain r where r: "r \<in> set (the (projectReferences parsedCommandLine))"
      and c: "chain \<in> set (let tsConfigPath = referencePath path sys r;
                 beforeIndex = indexOf before tsConfigPath
             in if beforeIndex \<ge> 0 then [slice0 before (max beforeIndex 1)]
                else
                  (case getParsedCommandLine configs tsConfigPath of
                     Some referenceParsedCommandLine \<Rightarrow>
                       getReferencesChains path sys configs referenceParsedCommandLine tsConfigPath
                         (before @ [tsConfig])
                   | None \<Rightarrow> []))"
      by (subst (asm) getReferencesChains.simps) auto
    define t where "t = referencePath path sys r"
    from True r have rr: "r \<in> set (refsOf parsedCommandLine)" by (auto simp: refsOf_def)
    show ?thesis
    proof (cases "indexOf before t \<ge> 0")
      case True
      with c have "chain = take (nat (max (indexOf before t) 1)) before"
        by (simp add: Let_def t_def slice0_def)
      with "1.prems"(3) show ?thesis by (auto dest: in_set_takeD)
    next
      case nf: False
      then have tb: "t \<notin> set before" by (auto simp: indexOf_def split: if_splits)
      from rr "1.prems"(2) have tt: "t \<noteq> tsConfig" by (auto simp: t_def)
      from nf c obtain pcl where p: "getParsedCommandLine configs t = Some pcl"
        and cc: "chain \<in> set (getReferencesChains path sys configs pcl t (before @ [tsConfig]))"
        by (cases "getParsedCommandLine configs t") (auto simp: Let_def t_def)
      from p have m: "map_of configs t = Some pcl" by (simp add: getParsedCommandLine_def)
      with "1.prems"(1) have s: "\<forall>r \<in> set (refsOf pcl). referencePath path sys r \<noteq> t" by blast
      from tb tt "1.prems"(3) have d: "distinct ((before @ [tsConfig]) @ [t])" by auto
      from m have k: "t \<in> set (map fst configs)"
        by (auto dest!: map_of_SomeD intro: rev_image_eqI)
      have "distinct chain \<and> set chain \<subseteq> insert t (set (before @ [tsConfig])) \<union> set (map fst configs)"
        using "1.IH" [OF True r t_def refl _ p "1.prems"(1) s d cc] nf by simp
      with k show ?thesis by auto
    qed
  qed
qed


lemma getReferencesChains_mutual:
  "getReferencesChains exPosix (Some exSys) exConfigsMutual exMutualA ''/a/tsconfig.json'' []
     = [[''/a/tsconfig.json'']]"
  by code_simp

text \<open>
  Claim C4. The traversal is total: \<open>getReferencesChains\<close> is defined by a recursion
  that terminates on every finite table of configurations, cyclic or not. The check for
  a cycle looks the referenced configuration up in \<open>before\<close>, which does not hold the
  current configuration; a configuration that references itself is therefore entered
  once more. For the configuration \<^verbatim>\<open>/p/tsconfig.json\<close> that references itself and
  \<^verbatim>\<open>/q/tsconfig.json\<close>, one of the chains returned holds \<^verbatim>\<open>/p/tsconfig.json\<close> twice and
  is longer than the two configurations there are.
\<close>

theorem getReferencesChains_self_reference:
  "getReferencesChains exPosix (Some exSys) exConfigsSelf exSelfRoot ''/p/tsconfig.json'' []
     = [[''/p/tsconfig.json''],
        [''/p/tsconfig.json'', ''/p/tsconfig.json'', ''/q/tsconfig.json''],
        [''/p/tsconfig.json'', ''/q/tsconfig.json'']]"
  by code_simp

end
